theory Spec2Isabelle
  imports Main
begin

section \<open>Machine integers of \<^verbatim>\<open>spek-audio.cc\<close>\<close>

text \<open>
  The source computes with \<^verbatim>\<open>int\<close> (32 bits) and \<^verbatim>\<open>int64_t\<close>. Values are kept as
  mathematical integers and every 64-bit operation of the source is wrapped explicitly
  into the two's complement range, so an overflowing product is visible in the model.
\<close>

definition INT64_MIN :: int where
  "INT64_MIN = - (2 ^ 63)"

definition INT64_MAX :: int where
  "INT64_MAX = 2 ^ 63 - 1"

definition INT32_MAX :: int where
  "INT32_MAX = 2 ^ 31 - 1"

definition is_int32 :: "int \<Rightarrow> bool" where
  "is_int32 x = (- (2 ^ 31) \<le> x \<and> x \<le> INT32_MAX)"

definition is_int64 :: "int \<Rightarrow> bool" where
  "is_int64 x = (INT64_MIN \<le> x \<and> x \<le> INT64_MAX)"

definition wrap64 :: "int \<Rightarrow> int" where
  "wrap64 x = (x + 2 ^ 63) mod 2 ^ 64 - 2 ^ 63"

text \<open>The remainder of C and C++ takes the sign of the dividend (division truncates).\<close>

definition c_rem :: "int \<Rightarrow> int \<Rightarrow> int" where
  "c_rem a b = sgn a * (\<bar>a\<bar> mod \<bar>b\<bar>)"

text \<open>Ways in which a call leaves the program instead of returning.\<close>

datatype fault =
  AssertFailed | NullDeref | OutOfBounds | DivisionTrap | UninitRead | CastOutOfRange

section \<open>Floating point\<close>

text \<open>
  The \<^verbatim>\<open>double\<close> and \<^verbatim>\<open>float\<close> values of the source are IEEE 754 binary64 and binary32
  values; every conversion, product and quotient is rounded once, to nearest with ties
  to even. A finite value is kept exactly, as \<open>m * 2 ^ e\<close> with an odd \<open>m\<close> (or as
  \<open>0 * 2 ^ 0\<close>); \<open>Infinite True\<close> is the negative infinity. The sign of a zero is not
  kept.
\<close>

datatype ieee = Finite int int | Infinite bool | NotANumber

text \<open>The number of binary digits of a positive integer.\<close>

function bit_length :: "int \<Rightarrow> int" where
  "bit_length n = (if n \<le> 0 then 0 else 1 + bit_length (n div 2))"
  by pat_completeness auto
termination
  by (relation "measure nat") auto

declare bit_length.simps [simp del]

text \<open>\<open>n * 2 ^ s\<close> with the factors of two moved out of \<open>n\<close>, for \<open>n\<close> not negative.\<close>

function strip_zeros :: "int \<Rightarrow> int \<Rightarrow> int \<times> int" where
  "strip_zeros n s =
     (if n \<le> 0 then (0, 0)
      else if even n then strip_zeros (n div 2) (s + 1)
      else (n, s))"
  by pat_completeness auto
termination
  by (relation "measure (\<lambda>(n, s). nat n)") auto

declare strip_zeros.simps [simp del]

text \<open>
  The value of the format nearest to the ratio \<open>p / q\<close> (for \<open>q > 0\<close>). The format has
  \<open>prec\<close> significant bits, its smallest quantum is \<open>2 ^ qmin\<close>, and a rounded magnitude
  of \<open>2 ^ emax\<close> or more is an overflow. \<open>lg\<close> is the exponent of the leading bit of
  \<open>|p| / q\<close>, \<open>s\<close> the exponent of the quantum, \<open>n\<close> the number of quanta after rounding.
\<close>

definition round_ratio :: "int \<Rightarrow> int \<Rightarrow> int \<Rightarrow> int \<Rightarrow> int \<Rightarrow> ieee" where
  "round_ratio prec qmin emax p q =
     (if p = 0 then Finite 0 0
      else
        (let a = \<bar>p\<bar>;
             d = bit_length a - bit_length q;
             lg = (if q * 2 ^ nat d \<le> a * 2 ^ nat (- d) then d else d - 1);
             s = max (lg - (prec - 1)) qmin;
             num = a * 2 ^ nat (- s);
             den = q * 2 ^ nat s;
             f = num div den;
             r = num mod den;
             n = (if 2 * r < den then f
                  else if den < 2 * r then f + 1
                  else if even f then f else f + 1)
         in if emax < bit_length n + s then Infinite (p < 0)
            else (case strip_zeros n s of (m, e) \<Rightarrow> Finite (sgn p * m) e)))"

definition binary64 :: "int \<Rightarrow> int \<Rightarrow> ieee" where
  "binary64 p q = round_ratio 53 (- 1074) 1024 p q"

definition binary32 :: "int \<Rightarrow> int \<Rightarrow> ieee" where
  "binary32 p q = round_ratio 24 (- 149) 128 p q"

text \<open>Rounding the exact value \<open>m * 2 ^ e\<close>; \<open>rnd\<close> is the format's \<open>round_ratio\<close>.\<close>

definition round_value :: "(int \<Rightarrow> int \<Rightarrow> ieee) \<Rightarrow> int \<Rightarrow> int \<Rightarrow> ieee" where
  "round_value rnd m e = rnd (m * 2 ^ nat e) (2 ^ nat (- e))"

definition ieee_of_int :: "(int \<Rightarrow> int \<Rightarrow> ieee) \<Rightarrow> int \<Rightarrow> ieee" where
  "ieee_of_int rnd i = rnd i 1"

definition ieee_mul :: "(int \<Rightarrow> int \<Rightarrow> ieee) \<Rightarrow> ieee \<Rightarrow> ieee \<Rightarrow> ieee" where
  "ieee_mul rnd x y =
     (case x of
        NotANumber \<Rightarrow> NotANumber
      | Infinite sx \<Rightarrow>
          (case y of
             NotANumber \<Rightarrow> NotANumber
           | Infinite sy \<Rightarrow> Infinite (sx \<noteq> sy)
           | Finite my ey \<Rightarrow> if my = 0 then NotANumber else Infinite (sx \<noteq> (my < 0)))
      | Finite mx ex \<Rightarrow>
          (case y of
             NotANumber \<Rightarrow> NotANumber
           | Infinite sy \<Rightarrow> if mx = 0 then NotANumber else Infinite ((mx < 0) \<noteq> sy)
           | Finite my ey \<Rightarrow> round_value rnd (mx * my) (ex + ey)))"

definition ieee_div :: "(int \<Rightarrow> int \<Rightarrow> ieee) \<Rightarrow> ieee \<Rightarrow> ieee \<Rightarrow> ieee" where
  "ieee_div rnd x y =
     (case x of
        NotANumber \<Rightarrow> NotANumber
      | Infinite sx \<Rightarrow>
          (case y of
             NotANumber \<Rightarrow> NotANumber
           | Infinite sy \<Rightarrow> NotANumber
           | Finite my ey \<Rightarrow> Infinite (sx \<noteq> (my < 0)))
      | Finite mx ex \<Rightarrow>
          (case y of
             NotANumber \<Rightarrow> NotANumber
           | Infinite sy \<Rightarrow> Finite 0 0
           | Finite my ey \<Rightarrow>
               if my = 0 then (if mx = 0 then NotANumber else Infinite (mx < 0))
               else rnd (sgn my * mx * 2 ^ nat (ex - ey)) (\<bar>my\<bar> * 2 ^ nat (ey - ex))))"

text \<open>
  The cast of a \<^verbatim>\<open>double\<close> to \<^verbatim>\<open>int64_t\<close>: the fraction is dropped (truncation towards
  zero); a value that is not finite or does not fit has no defined result.
\<close>

definition trunc_int64 :: "ieee \<Rightarrow> fault + int" where
  "trunc_int64 x =
     (case x of
        Finite m e \<Rightarrow>
          (let t = (if 0 \<le> e then m * 2 ^ nat e else sgn m * (\<bar>m\<bar> div 2 ^ nat (- e)))
           in if is_int64 t then Inr t else Inl CastOutOfRange)
      | _ \<Rightarrow> Inl CastOutOfRange)"

text \<open>
  The value of a bit pattern with \<open>fbits\<close> fraction bits and \<open>ebits\<close> exponent bits below
  the sign bit (23 and 8 for binary32, 52 and 11 for binary64).
\<close>

definition decode_ieee :: "nat \<Rightarrow> nat \<Rightarrow> int \<Rightarrow> ieee" where
  "decode_ieee fbits ebits raw =
     (let b = raw mod 2 ^ (fbits + ebits + 1);
          negative = (b div 2 ^ (fbits + ebits) = 1);
          ex = (b div 2 ^ fbits) mod 2 ^ ebits;
          fr = b mod 2 ^ fbits;
          bias = 2 ^ (ebits - 1) - 1
      in if ex = 2 ^ ebits - 1 then (if fr = 0 then Infinite negative else NotANumber)
         else
           (case (if ex = 0 then strip_zeros fr (1 - bias - int fbits)
                  else strip_zeros (2 ^ fbits + fr) (ex - bias - int fbits)) of
              (m, e) \<Rightarrow> Finite ((if negative then - 1 else 1) * m) e))"

section \<open>Interval scheduler (\<^verbatim>\<open>AudioFileImpl::start\<close>, lines 263--268)\<close>

text \<open>
  Modelled from the spec: \<^verbatim>\<open>av_rescale_rnd\<close> belongs to libavutil and is not part of the
  repository. The spec describes the call as \<^verbatim>\<open>floor(durationTicks * rate / errorBase)\<close>,
  ``computed with a 64-bit-safe scaled-multiply-then-divide''. The library returns
  \<^verbatim>\<open>INT64_MIN\<close> for a non-positive divisor, a negative multiplier or a quotient that does
  not fit 64 bits.
\<close>

definition av_rescale_rnd_down :: "int \<Rightarrow> int \<Rightarrow> int \<Rightarrow> int" where
  "av_rescale_rnd_down a b c =
     (if c \<le> 0 \<or> b < 0 then INT64_MIN
      else if is_int64 ((a * b) div c) then (a * b) div c
      else INT64_MIN)"

record IntervalPlan =
  frames_per_interval :: int
  error_per_interval :: int
  error_base :: int

text \<open>
  Lines 264 and 266--268 of \<^verbatim>\<open>start\<close>. \<open>ticks\<close> is the local \<^verbatim>\<open>int64_t duration\<close> that
  line 265 has computed (\<open>duration_ticks\<close> below), \<open>srate\<close> is \<^verbatim>\<open>this->sample_rate\<close>,
  \<open>tb_num\<close> and \<open>tb_den\<close> the stream's time base, \<open>samples\<close> the interval count. The
  remainder of line 268 traps for a zero divisor and for \<^verbatim>\<open>INT64_MIN % -1\<close>.
\<close>

definition plan :: "int \<Rightarrow> int \<Rightarrow> int \<Rightarrow> int \<Rightarrow> int \<Rightarrow> fault + IntervalPlan" where
  "plan ticks srate tb_num tb_den samples =
     (let rate = wrap64 (srate * tb_num);
          ebase = wrap64 (samples * tb_den);
          fpi = av_rescale_rnd_down ticks rate ebase
      in if ebase = 0 \<or> (ebase = - 1 \<and> wrap64 (ticks * rate) = INT64_MIN)
         then Inl DivisionTrap
         else Inr \<lparr>frames_per_interval = fpi,
                   error_per_interval = c_rem (wrap64 (ticks * rate)) ebase,
                   error_base = ebase\<rparr>)"

text \<open>
  Modelled from the spec: the consumer of the plan lives in the pipeline, outside this
  file. Section 4.4: keep an accumulator starting at 0; each interval consumes
  \<open>frames_per_interval\<close> frames, then adds \<open>error_per_interval\<close> to the accumulator;
  when the accumulator reaches \<open>error_base\<close> the interval consumes one more frame and
  \<open>error_base\<close> is subtracted. \<open>bresenham p n acc\<close> is the number of frames consumed by
  \<open>n\<close> further intervals from accumulator \<open>acc\<close>.
\<close>

fun bresenham :: "IntervalPlan \<Rightarrow> nat \<Rightarrow> int \<Rightarrow> int" where
  "bresenham p 0 acc = 0"
| "bresenham p (Suc n) acc =
     (let acc' = acc + error_per_interval p
      in if acc' \<ge> error_base p
         then frames_per_interval p + 1 + bresenham p n (acc' - error_base p)
         else frames_per_interval p + bresenham p n acc')"

section \<open>Data of the media library and of the session\<close>

text \<open>
  Modelled from the spec: \<^verbatim>\<open>enum AudioError\<close> is declared in \<^verbatim>\<open>spek-audio.h\<close>, which is
  not among the sources. Its values are the ones \<^verbatim>\<open>spek-audio.cc\<close> assigns and section 7
  lists; \<^verbatim>\<open>!error\<close> tests for \<open>OK\<close>.
\<close>

datatype AudioError =
    OK
  | CANNOT_OPEN_DEVICE
  | CANNOT_OPEN_FILE
  | NO_STREAMS
  | NO_AUDIO
  | NO_DECODER
  | NO_DURATION
  | NO_CHANNELS
  | CANNOT_OPEN_DECODER
  | BAD_SAMPLE_FORMAT

text \<open>The library's enumerations, as far as the source distinguishes their values.\<close>

datatype AVMediaType =
    AVMEDIA_TYPE_UNKNOWN
  | AVMEDIA_TYPE_VIDEO
  | AVMEDIA_TYPE_AUDIO
  | AVMEDIA_TYPE_DATA
  | AVMEDIA_TYPE_SUBTITLE
  | AVMEDIA_TYPE_ATTACHMENT

datatype AVCodecID =
    AV_CODEC_ID_AAC
  | AV_CODEC_ID_MUSEPACK8
  | AV_CODEC_ID_WMAV1
  | AV_CODEC_ID_WMAV2
  | AV_CODEC_ID_OTHER nat

datatype AVSampleFormat =
    AV_SAMPLE_FMT_NONE
  | AV_SAMPLE_FMT_U8
  | AV_SAMPLE_FMT_S16
  | AV_SAMPLE_FMT_S32
  | AV_SAMPLE_FMT_FLT
  | AV_SAMPLE_FMT_DBL
  | AV_SAMPLE_FMT_U8P
  | AV_SAMPLE_FMT_S16P
  | AV_SAMPLE_FMT_S32P
  | AV_SAMPLE_FMT_FLTP
  | AV_SAMPLE_FMT_DBLP
  | AV_SAMPLE_FMT_S64
  | AV_SAMPLE_FMT_S64P

definition AV_NOPTS_VALUE :: int where
  "AV_NOPTS_VALUE = INT64_MIN"

text \<open>
  A \<^verbatim>\<open>double\<close> of the resolver is kept as the expression the source evaluates
  (\<open>double_of\<close> below gives its value): a literal, \<^verbatim>\<open>duration * av_q2d(time_base)\<close> of a
  stream (ticks, numerator, denominator), or the container's
  \<^verbatim>\<open>duration / (double) AV_TIME_BASE\<close>.
\<close>

datatype double_expr =
    DoubleConst int
  | StreamSeconds int int int
  | ContainerSeconds int

text \<open>
  A \<^verbatim>\<open>float\<close> written to the sample buffer, likewise kept as the expression of lines
  316--338 over the raw sample that was read: an integer sample divided by
  \<^verbatim>\<open>static_cast<float>\<close> of a constant, a 32-bit float taken as it is, a 64-bit float
  narrowed, or the literal \<^verbatim>\<open>0.0f\<close>. \<open>FloatUninit\<close> is a cell that \<^verbatim>\<open>av_realloc\<close>
  added and nothing has written yet.
\<close>

datatype float_expr =
    IntOverFloat int int
  | FloatSample int
  | DoubleSample int
  | FloatZero
  | FloatUninit

record AVCodec =
  long_name :: string

record AVCodecContext =
  codec_type :: AVMediaType
  codec_id :: AVCodecID
  cc_bit_rate :: int
  cc_sample_rate :: int
  bits_per_raw_sample :: int
  bits_per_coded_sample :: int
  cc_channels :: int
  sample_fmt :: AVSampleFormat
  decoder_state :: nat

record AVStream =
  codec :: AVCodecContext
  st_duration :: int
  time_base_num :: int
  time_base_den :: int

text \<open>
  A packet: \<open>pkt_data\<close> is \<open>None\<close> for a null pointer, else the payload (an opaque
  identifier of the compressed bytes) with the number of bytes the pointer has been
  advanced; \<open>pkt_size\<close> is the number of bytes left.
\<close>

record AVPacket =
  pkt_data :: "(nat \<times> int) option"
  pkt_size :: int
  stream_index :: int

text \<open>
  A decoded frame: \<open>fr_data\<close> holds the planes that are present, each a sequence of raw
  samples of the width \<open>format\<close> prescribes (one plane for a packed layout, one per
  channel for a planar one).
\<close>

record AVFrame =
  nb_samples :: int
  format :: AVSampleFormat
  fr_data :: "int list list"

text \<open>
  The container handle. \<open>av_streams\<close> is the array \<^verbatim>\<open>streams\<close> with \<^verbatim>\<open>nb_streams\<close> its
  length; \<open>demux\<close> is the sequence of packets that \<^verbatim>\<open>av_read_frame\<close> has still to
  deliver. The library refuses to add a stream beyond \<^verbatim>\<open>INT_MAX / sizeof(AVStream *)\<close>,
  so stream indices and counts stay far inside \<^verbatim>\<open>int\<close> and are not wrapped.
\<close>

record AVFormatContext =
  av_streams :: "AVStream list"
  fc_duration :: int
  demux :: "AVPacket list"

text \<open>
  \<^verbatim>\<open>class AudioFileImpl\<close>. The three plan members are grouped in \<open>interval_plan\<close>.
  \<open>channel\<close> is not initialised by the constructor: \<open>None\<close> until \<^verbatim>\<open>start\<close> sets it.
\<close>

record AudioFileImpl =
  error :: AudioError
  format_context :: "AVFormatContext option"
  audio_stream :: int
  codec_name :: string
  bit_rate :: int
  sample_rate :: int
  bits_per_sample :: int
  streams :: int
  channels :: int
  duration :: double_expr
  channel :: "int option"
  packet :: AVPacket
  offset :: int
  frame :: AVFrame
  buffer_len :: int
  buffer :: "float_expr list"
  interval_plan :: IntervalPlan

definition blank_packet :: AVPacket where
  "blank_packet = \<lparr>pkt_data = None, pkt_size = 0, stream_index = 0\<rparr>"

definition blank_frame :: AVFrame where
  "blank_frame = \<lparr>nb_samples = 0, format = AV_SAMPLE_FMT_NONE, fr_data = []\<rparr>"

text \<open>The constructor \<^verbatim>\<open>AudioFileImpl::AudioFileImpl\<close> (lines 208--228).\<close>

definition AudioFileImpl_new ::
  "AudioError \<Rightarrow> AVFormatContext option \<Rightarrow> int \<Rightarrow> string \<Rightarrow> int \<Rightarrow> int \<Rightarrow> int \<Rightarrow> int \<Rightarrow> int
     \<Rightarrow> double_expr \<Rightarrow> AudioFileImpl" where
  "AudioFileImpl_new err fc a_stream name br sr bps n_streams n_channels dur =
     \<lparr>error = err, format_context = fc, audio_stream = a_stream,
      codec_name = name, bit_rate = br, sample_rate = sr, bits_per_sample = bps,
      streams = n_streams, channels = n_channels, duration = dur,
      channel = None, packet = blank_packet, offset = 0, frame = blank_frame,
      buffer_len = 0, buffer = [],
      interval_plan = \<lparr>frames_per_interval = 0, error_per_interval = 0, error_base = 0\<rparr>\<rparr>"

text \<open>
  The value of a \<^verbatim>\<open>double\<close> of the resolver. \<^verbatim>\<open>av_q2d\<close> is \<^verbatim>\<open>num / (double) den\<close>;
  \<^verbatim>\<open>AV_TIME_BASE\<close> is 1000000.
\<close>

fun double_of :: "double_expr \<Rightarrow> ieee" where
  "double_of (DoubleConst n) = ieee_of_int binary64 n"
| "double_of (StreamSeconds t num den) =
     ieee_mul binary64 (ieee_of_int binary64 t)
       (ieee_div binary64 (ieee_of_int binary64 num) (ieee_of_int binary64 den))"
| "double_of (ContainerSeconds d) =
     ieee_div binary64 (ieee_of_int binary64 d) (ieee_of_int binary64 1000000)"

text \<open>
  The value of a \<^verbatim>\<open>float\<close> of the sample buffer. In \<open>IntOverFloat a b\<close> the sample \<open>a\<close>
  and the constant \<open>b\<close> are both converted to \<^verbatim>\<open>float\<close> before the division. A sample
  of a floating format is given by its bit pattern. A cell nothing has written has no
  value.
\<close>

fun float_of :: "float_expr \<Rightarrow> ieee option" where
  "float_of (IntOverFloat a b) =
     Some (ieee_div binary32 (ieee_of_int binary32 a) (ieee_of_int binary32 b))"
| "float_of (FloatSample raw) = Some (decode_ieee 23 8 raw)"
| "float_of (DoubleSample raw) =
     Some (case decode_ieee 52 11 raw of
             Finite m e \<Rightarrow> round_value binary32 m e
           | x \<Rightarrow> x)"
| "float_of FloatZero = Some (Finite 0 0)"
| "float_of FloatUninit = None"

text \<open>
  Modelled from the spec: section 4.4 defines the tick count of the full duration as
  \<^verbatim>\<open>durationTicks = round(durationSeconds * timeBaseDen / timeBaseNum)\<close>. Here it is
  computed exactly from the value of the duration, for comparison with line 265.
  \<open>round_half p q\<close> is the integer nearest to \<open>p / q\<close> for \<open>q > 0\<close>.
\<close>

definition round_half :: "int \<Rightarrow> int \<Rightarrow> int" where
  "round_half p q = sgn p * ((2 * \<bar>p\<bar> + q) div (2 * q))"

definition spec_duration_ticks :: "double_expr \<Rightarrow> int \<Rightarrow> int \<Rightarrow> int option" where
  "spec_duration_ticks dur tb_den tb_num =
     (case double_of dur of
        Finite m e \<Rightarrow>
          if 0 < tb_num
          then Some (round_half (m * tb_den * 2 ^ nat e) (tb_num * 2 ^ nat (- e)))
          else None
      | _ \<Rightarrow> None)"

section \<open>Source resolver (\<^verbatim>\<open>Audio::open\<close>, lines 76--206)\<close>

text \<open>
  The calls into the media library that \<^verbatim>\<open>open\<close> makes. Their answers are inputs of
  the resolver: \<open>av_find_input_format\<close> tells whether the named input format exists;
  \<open>avformat_open_input\<close> takes the file or device name and whether an input format is
  forced, and yields the container handle or nothing (the pointer stays null);
  \<open>avformat_find_stream_info\<close> and \<open>avcodec_open2\<close> return their status and the
  structure they have updated in place.
\<close>

record av_lib =
  av_find_input_format :: "string \<Rightarrow> bool"
  avformat_open_input :: "string \<Rightarrow> bool \<Rightarrow> AVFormatContext option"
  avformat_find_stream_info :: "AVFormatContext \<Rightarrow> int \<times> AVFormatContext"
  avcodec_find_decoder :: "AVCodecID \<Rightarrow> AVCodec option"
  avcodec_open2 :: "AVCodecContext \<Rightarrow> AVCodec \<Rightarrow> int \<times> AVCodecContext"

text \<open>The local variables of \<^verbatim>\<open>open\<close> that outlive a block.\<close>

record open_locals =
  l_error :: AudioError
  l_format_context :: "AVFormatContext option"
  l_audio_stream :: int
  l_streams :: int
  l_codec :: "AVCodec option"
  l_codec_name :: string
  l_bit_rate :: int
  l_sample_rate :: int
  l_bits_per_sample :: int
  l_channels :: int
  l_duration :: double_expr

definition open_init :: open_locals where
  "open_init =
     \<lparr>l_error = OK, l_format_context = None, l_audio_stream = - 1, l_streams = 0,
      l_codec = None, l_codec_name = [], l_bit_rate = 0, l_sample_rate = 0,
      l_bits_per_sample = 0, l_channels = 0, l_duration = DoubleConst 0\<rparr>"

text \<open>Lines 86--95: a device name selects the capture backend.\<close>

definition find_device :: "av_lib \<Rightarrow> string \<Rightarrow> open_locals \<Rightarrow> open_locals" where
  "find_device lib device_name v =
     (if device_name \<noteq> [] \<and> \<not> av_find_input_format lib ''alsa''
      then v\<lparr>l_error := CANNOT_OPEN_DEVICE\<rparr>
      else v)"

text \<open>Lines 97--102.\<close>

definition open_input :: "av_lib \<Rightarrow> string \<Rightarrow> string \<Rightarrow> open_locals \<Rightarrow> open_locals" where
  "open_input lib file_name device_name v =
     (if l_error v = OK
      then (case avformat_open_input lib
                   (if device_name \<noteq> [] then ''default'' else file_name)
                   (device_name \<noteq> []) of
              None \<Rightarrow> v\<lparr>l_error := CANNOT_OPEN_FILE\<rparr>
            | Some fc \<Rightarrow> v\<lparr>l_format_context := Some fc\<rparr>)
      else v)"

text \<open>
  Lines 104--110. Here and below the handle is present whenever the error is still
  \<open>OK\<close> (lemmas \<open>stage2_ok\<close> to \<open>stage7_ok\<close>), so the \<open>None\<close> branches are never
  taken.
\<close>

definition probe_streams :: "av_lib \<Rightarrow> open_locals \<Rightarrow> open_locals" where
  "probe_streams lib v =
     (if l_error v = OK
      then (case l_format_context v of
              None \<Rightarrow> v
            | Some fc \<Rightarrow>
                (case avformat_find_stream_info lib fc of
                   (ret, fc') \<Rightarrow>
                     if ret < 0 \<and> int (length (av_streams fc')) \<le> 0
                     then v\<lparr>l_format_context := Some fc', l_error := NO_STREAMS\<rparr>
                     else v\<lparr>l_format_context := Some fc'\<rparr>))
      else v)"

text \<open>
  The loop of lines 115--122 over the streams from index \<open>i\<close> on, carrying
  \<^verbatim>\<open>audio_stream\<close> and \<^verbatim>\<open>streams\<close>.
\<close>

fun scan_streams :: "int \<Rightarrow> AVStream list \<Rightarrow> int \<Rightarrow> int \<times> int \<Rightarrow> int \<times> int" where
  "scan_streams stream [] i (a_stream, n_streams) = (a_stream, n_streams)"
| "scan_streams stream (st # rest) i (a_stream, n_streams) =
     (if codec_type (codec st) = AVMEDIA_TYPE_AUDIO
      then scan_streams stream rest (i + 1)
             (if stream = n_streams then i else a_stream, n_streams + 1)
      else scan_streams stream rest (i + 1) (a_stream, n_streams))"

text \<open>Lines 112--126.\<close>

definition select_stream :: "int \<Rightarrow> open_locals \<Rightarrow> open_locals" where
  "select_stream stream v =
     (if l_error v = OK
      then (case l_format_context v of
              None \<Rightarrow> v
            | Some fc \<Rightarrow>
                (case scan_streams stream (av_streams fc) 0 (- 1, 0) of
                   (a_stream, n_streams) \<Rightarrow>
                     if a_stream = - 1
                     then v\<lparr>l_audio_stream := a_stream, l_streams := n_streams,
                            l_error := NO_AUDIO\<rparr>
                     else v\<lparr>l_audio_stream := a_stream, l_streams := n_streams\<rparr>))
      else v)"

text \<open>Lines 128--138.\<close>

definition find_decoder :: "av_lib \<Rightarrow> open_locals \<Rightarrow> open_locals" where
  "find_decoder lib v =
     (if l_error v = OK
      then (case l_format_context v of
              None \<Rightarrow> v
            | Some fc \<Rightarrow>
                (case avcodec_find_decoder lib
                        (codec_id (codec (av_streams fc ! nat (l_audio_stream v)))) of
                   None \<Rightarrow> v\<lparr>l_error := NO_DECODER\<rparr>
                 | Some c \<Rightarrow> v\<lparr>l_codec := Some c\<rparr>))
      else v)"

text \<open>Lines 151--155: bits per sample, raw first, coded as the fallback.\<close>

definition reported_bits :: "AVCodecContext \<Rightarrow> int" where
  "reported_bits cc =
     (if bits_per_raw_sample cc = 0 then bits_per_coded_sample cc
      else bits_per_raw_sample cc)"

text \<open>Lines 156--162: the decoders that set both bits per sample and bit rate.\<close>

definition sets_both :: "AVCodecID \<Rightarrow> bool" where
  "sets_both cid =
     (cid = AV_CODEC_ID_AAC \<or> cid = AV_CODEC_ID_MUSEPACK8 \<or>
      cid = AV_CODEC_ID_WMAV1 \<or> cid = AV_CODEC_ID_WMAV2)"

text \<open>Lines 146--181.\<close>

definition fill_stream_info :: "string \<Rightarrow> open_locals \<Rightarrow> open_locals" where
  "fill_stream_info device_name v =
     (if l_error v = OK
      then (case (l_format_context v, l_codec v) of
              (Some fc, Some c) \<Rightarrow>
                (let avstream = av_streams fc ! nat (l_audio_stream v);
                     cc = codec avstream;
                     bps = (if sets_both (codec_id cc) then 0 else reported_bits cc);
                     v1 = v\<lparr>l_codec_name := long_name c,
                            l_bit_rate := (if bps \<noteq> 0 then 0 else cc_bit_rate cc),
                            l_sample_rate := cc_sample_rate cc,
                            l_bits_per_sample := bps,
                            l_channels := cc_channels cc\<rparr>;
                     v2 = (if st_duration avstream \<noteq> AV_NOPTS_VALUE
                           then v1\<lparr>l_duration :=
                                     StreamSeconds (st_duration avstream)
                                       (time_base_num avstream) (time_base_den avstream)\<rparr>
                           else if fc_duration fc \<noteq> AV_NOPTS_VALUE
                           then v1\<lparr>l_duration := ContainerSeconds (fc_duration fc)\<rparr>
                           else if device_name \<noteq> []
                           then v1\<lparr>l_duration := DoubleConst 60\<rparr>
                           else v1\<lparr>l_error := NO_DURATION\<rparr>)
                 in if l_error v2 = OK \<and> cc_channels cc \<le> 0
                    then v2\<lparr>l_error := NO_CHANNELS\<rparr>
                    else v2)
            | _ \<Rightarrow> v)
      else v)"

text \<open>Writing the codec context of stream \<open>i\<close> back into the container handle.\<close>

definition set_codec :: "AVFormatContext \<Rightarrow> nat \<Rightarrow> AVCodecContext \<Rightarrow> AVFormatContext" where
  "set_codec fc i cc =
     fc\<lparr>av_streams := (av_streams fc)[i := (av_streams fc ! i)\<lparr>codec := cc\<rparr>]\<rparr>"

text \<open>Lines 183--185.\<close>

definition open_decoder :: "av_lib \<Rightarrow> open_locals \<Rightarrow> open_locals" where
  "open_decoder lib v =
     (if l_error v = OK
      then (case (l_format_context v, l_codec v) of
              (Some fc, Some c) \<Rightarrow>
                (case avcodec_open2 lib (codec (av_streams fc ! nat (l_audio_stream v))) c of
                   (ret, cc') \<Rightarrow>
                     if ret < 0
                     then v\<lparr>l_format_context := Some (set_codec fc (nat (l_audio_stream v)) cc'),
                            l_error := CANNOT_OPEN_DECODER\<rparr>
                     else v\<lparr>l_format_context := Some (set_codec fc (nat (l_audio_stream v)) cc')\<rparr>)
            | _ \<Rightarrow> v)
      else v)"

text \<open>Lines 187--195.\<close>

definition supported_format :: "AVSampleFormat \<Rightarrow> bool" where
  "supported_format fmt =
     (\<not> (fmt \<noteq> AV_SAMPLE_FMT_S16 \<and> fmt \<noteq> AV_SAMPLE_FMT_S16P \<and>
         fmt \<noteq> AV_SAMPLE_FMT_S32 \<and> fmt \<noteq> AV_SAMPLE_FMT_S32P \<and>
         fmt \<noteq> AV_SAMPLE_FMT_FLT \<and> fmt \<noteq> AV_SAMPLE_FMT_FLTP \<and>
         fmt \<noteq> AV_SAMPLE_FMT_DBL \<and> fmt \<noteq> AV_SAMPLE_FMT_DBLP))"

definition check_sample_fmt :: "open_locals \<Rightarrow> open_locals" where
  "check_sample_fmt v =
     (if l_error v = OK
      then (case l_format_context v of
              None \<Rightarrow> v
            | Some fc \<Rightarrow>
                if supported_format
                     (sample_fmt (codec (av_streams fc ! nat (l_audio_stream v))))
                then v
                else v\<lparr>l_error := BAD_SAMPLE_FORMAT\<rparr>)
      else v)"

text \<open>The blocks of \<^verbatim>\<open>open\<close> in the order of the source.\<close>

definition open_steps ::
  "av_lib \<Rightarrow> string \<Rightarrow> string \<Rightarrow> int \<Rightarrow> (open_locals \<Rightarrow> open_locals) list" where
  "open_steps lib file_name device_name stream =
     [find_device lib device_name,
      open_input lib file_name device_name,
      probe_streams lib,
      select_stream stream,
      find_decoder lib,
      fill_stream_info device_name,
      open_decoder lib,
      check_sample_fmt]"

definition run_steps :: "(open_locals \<Rightarrow> open_locals) list \<Rightarrow> open_locals \<Rightarrow> open_locals" where
  "run_steps steps v = fold (\<lambda>step w. step w) steps v"

text \<open>Lines 201--205: the session built from the locals.\<close>

definition session_of :: "open_locals \<Rightarrow> AudioFileImpl" where
  "session_of v =
     AudioFileImpl_new (l_error v) (l_format_context v) (l_audio_stream v)
       (l_codec_name v) (l_bit_rate v) (l_sample_rate v) (l_bits_per_sample v)
       (l_streams v) (l_channels v) (l_duration v)"

text \<open>The locals of \<^verbatim>\<open>open\<close> after its first \<open>k\<close> blocks.\<close>

definition open_after ::
  "nat \<Rightarrow> av_lib \<Rightarrow> string \<Rightarrow> string \<Rightarrow> int \<Rightarrow> open_locals" where
  "open_after k lib file_name device_name stream =
     run_steps (take k (open_steps lib file_name device_name stream)) open_init"

text \<open>
  \<^verbatim>\<open>Audio::open\<close>. The one-time device registration and \<^verbatim>\<open>av_dump_format\<close> (logging)
  have no effect on the result and are left out.
\<close>

definition Audio_open :: "av_lib \<Rightarrow> string \<Rightarrow> string \<Rightarrow> int \<Rightarrow> AudioFileImpl" where
  "Audio_open lib file_name device_name stream =
     session_of (run_steps (open_steps lib file_name device_name stream) open_init)"

text \<open>The number of audio streams of a container, for stating what \<open>scan_streams\<close> counts.\<close>

definition audio_count :: "AVStream list \<Rightarrow> int" where
  "audio_count sts =
     int (length (filter (\<lambda>st. codec_type (codec st) = AVMEDIA_TYPE_AUDIO) sts))"

text \<open>
  A library that opens every name as the container \<open>fc\<close>, answers the probe with
  status \<open>ret\<close> leaving the container as it is, has one decoder for every codec and
  opens it. It serves as the concrete input of the examples.
\<close>

definition stub_lib :: "AVFormatContext \<Rightarrow> int \<Rightarrow> av_lib" where
  "stub_lib fc ret =
     \<lparr>av_find_input_format = (\<lambda>name. False),
      avformat_open_input = (\<lambda>name forced. Some fc),
      avformat_find_stream_info = (\<lambda>c. (ret, c)),
      avcodec_find_decoder = (\<lambda>cid. Some \<lparr>long_name = ''MP3 (MPEG audio layer 3)''\<rparr>),
      avcodec_open2 = (\<lambda>cc c. (0, cc))\<rparr>"

definition mp3_context :: AVCodecContext where
  "mp3_context =
     \<lparr>codec_type = AVMEDIA_TYPE_AUDIO, codec_id = AV_CODEC_ID_OTHER 86017,
      cc_bit_rate = 128000, cc_sample_rate = 44100,
      bits_per_raw_sample = 0, bits_per_coded_sample = 0,
      cc_channels = 2, sample_fmt = AV_SAMPLE_FMT_S16P, decoder_state = 0\<rparr>"

text \<open>
  A container with one stream of codec context \<open>cc\<close>; \<open>d\<close> is the duration that stream
  and container report.
\<close>

definition audio_file :: "AVCodecContext \<Rightarrow> int \<Rightarrow> AVFormatContext" where
  "audio_file cc d =
     \<lparr>av_streams = [\<lparr>codec = cc, st_duration = d,
                      time_base_num = 1, time_base_den = 14112000\<rparr>],
      fc_duration = d, demux = []\<rparr>"

definition mp3_file :: "int \<Rightarrow> AVFormatContext" where
  "mp3_file d = audio_file mp3_context d"

text \<open>A lossless stream that reports 16 bits per sample as well as a bit rate.\<close>

definition flac_context :: AVCodecContext where
  "flac_context =
     \<lparr>codec_type = AVMEDIA_TYPE_AUDIO, codec_id = AV_CODEC_ID_OTHER 86028,
      cc_bit_rate = 900000, cc_sample_rate = 44100,
      bits_per_raw_sample = 16, bits_per_coded_sample = 0,
      cc_channels = 2, sample_fmt = AV_SAMPLE_FMT_S16, decoder_state = 0\<rparr>"

definition empty_file :: AVFormatContext where
  "empty_file = \<lparr>av_streams = [], fc_duration = AV_NOPTS_VALUE, demux = []\<rparr>"

section \<open>Channel selection (\<^verbatim>\<open>AudioFileImpl::start\<close>, lines 255--269)\<close>

text \<open>
  Line 265: \<^verbatim>\<open>(int64_t)(this->duration * stream->time_base.den / stream->time_base.num)\<close>.
  The product and the quotient are computed in \<^verbatim>\<open>double\<close>, the two \<^verbatim>\<open>int\<close> operands being
  converted first, and the cast drops the fraction.
\<close>

definition duration_ticks :: "double_expr \<Rightarrow> int \<Rightarrow> int \<Rightarrow> fault + int" where
  "duration_ticks dur tb_den tb_num =
     trunc_int64
       (ieee_div binary64
          (ieee_mul binary64 (double_of dur) (ieee_of_int binary64 tb_den))
          (ieee_of_int binary64 tb_num))"

text \<open>
  \<open>ndebug\<close> tells whether the file was compiled with \<^verbatim>\<open>NDEBUG\<close>: without it the
  \<^verbatim>\<open>assert(false)\<close> of line 259 aborts the program. Line 263 dereferences the container
  handle and indexes its streams.
\<close>

definition start :: "bool \<Rightarrow> int \<Rightarrow> int \<Rightarrow> AudioFileImpl \<Rightarrow> fault + AudioFileImpl" where
  "start ndebug chan samples s =
     (let s1 = s\<lparr>channel := Some chan\<rparr>
      in if (chan < 0 \<or> chan \<ge> channels s1) \<and> \<not> ndebug then Inl AssertFailed
         else
           (let s2 = (if chan < 0 \<or> chan \<ge> channels s1
                      then s1\<lparr>error := NO_CHANNELS\<rparr> else s1)
            in case format_context s2 of
                 None \<Rightarrow> Inl NullDeref
               | Some fc \<Rightarrow>
                   if 0 \<le> audio_stream s2 \<and> audio_stream s2 < int (length (av_streams fc))
                   then (let st = av_streams fc ! nat (audio_stream s2)
                         in case duration_ticks (duration s2)
                                   (time_base_den st) (time_base_num st) of
                              Inl e \<Rightarrow> Inl e
                            | Inr ticks \<Rightarrow>
                                (case plan ticks (sample_rate s2)
                                        (time_base_num st) (time_base_den st) samples of
                                   Inl e \<Rightarrow> Inl e
                                 | Inr p \<Rightarrow> Inr (s2\<lparr>interval_plan := p\<rparr>)))
                   else Inl OutOfBounds))"

section \<open>Sample reader (\<^verbatim>\<open>AudioFileImpl::read\<close>, lines 271--362)\<close>

text \<open>
  Modelled from the spec: \<^verbatim>\<open>av_sample_fmt_is_planar\<close> belongs to libavutil. The glossary:
  a planar layout stores each channel in its own buffer, a packed one interleaves them;
  the planar formats are the ones whose name ends in \<^verbatim>\<open>P\<close>.
\<close>

definition av_sample_fmt_is_planar :: "AVSampleFormat \<Rightarrow> bool" where
  "av_sample_fmt_is_planar fmt =
     (fmt = AV_SAMPLE_FMT_U8P \<or> fmt = AV_SAMPLE_FMT_S16P \<or> fmt = AV_SAMPLE_FMT_S32P \<or>
      fmt = AV_SAMPLE_FMT_FLTP \<or> fmt = AV_SAMPLE_FMT_DBLP \<or> fmt = AV_SAMPLE_FMT_S64P)"

text \<open>
  Lines 306--314: the plane and the offset in it from which sample number \<open>sample\<close> is
  taken. \<open>chan\<close> is \<^verbatim>\<open>this->channel\<close>, \<open>chans\<close> is \<^verbatim>\<open>this->channels\<close>.
\<close>

definition sample_source :: "bool \<Rightarrow> int option \<Rightarrow> int \<Rightarrow> int \<Rightarrow> fault + int \<times> int" where
  "sample_source is_planar chan chans sample =
     (if is_planar
      then (case chan of None \<Rightarrow> Inl UninitRead | Some c \<Rightarrow> Inr (c, sample))
      else Inr (0, sample * chans))"

text \<open>Reading element \<open>off\<close> of plane \<open>p\<close>; outside the planes there is nothing to read.\<close>

definition fetch_raw :: "int list list \<Rightarrow> int \<Rightarrow> int \<Rightarrow> fault + int" where
  "fetch_raw planes p off =
     (if 0 \<le> p \<and> p < int (length planes)
      then (if 0 \<le> off \<and> off < int (length (planes ! nat p))
            then Inr (planes ! nat p ! nat off)
            else Inl OutOfBounds)
      else Inl OutOfBounds)"

definition convert :: "(int \<Rightarrow> float_expr) \<Rightarrow> fault + int \<Rightarrow> fault + float_expr" where
  "convert f r = (case r of Inl e \<Rightarrow> Inl e | Inr raw \<Rightarrow> Inr (f raw))"

text \<open>Lines 315--338: the switch on the format; only its eight cases read the plane.\<close>

definition sample_value :: "AVSampleFormat \<Rightarrow> int list list \<Rightarrow> int \<Rightarrow> int \<Rightarrow> fault + float_expr" where
  "sample_value fmt planes p off =
     (case fmt of
        AV_SAMPLE_FMT_S16 \<Rightarrow> convert (\<lambda>raw. IntOverFloat raw 32767) (fetch_raw planes p off)
      | AV_SAMPLE_FMT_S16P \<Rightarrow> convert (\<lambda>raw. IntOverFloat raw 32767) (fetch_raw planes p off)
      | AV_SAMPLE_FMT_S32 \<Rightarrow> convert (\<lambda>raw. IntOverFloat raw 2147483647) (fetch_raw planes p off)
      | AV_SAMPLE_FMT_S32P \<Rightarrow> convert (\<lambda>raw. IntOverFloat raw 2147483647) (fetch_raw planes p off)
      | AV_SAMPLE_FMT_FLT \<Rightarrow> convert FloatSample (fetch_raw planes p off)
      | AV_SAMPLE_FMT_FLTP \<Rightarrow> convert FloatSample (fetch_raw planes p off)
      | AV_SAMPLE_FMT_DBL \<Rightarrow> convert DoubleSample (fetch_raw planes p off)
      | AV_SAMPLE_FMT_DBLP \<Rightarrow> convert DoubleSample (fetch_raw planes p off)
      | _ \<Rightarrow> Inr FloatZero)"

text \<open>
  The loop of lines 305--340 from sample number \<open>i\<close> for \<open>k\<close> more iterations, writing
  into the buffer.
\<close>

fun write_samples ::
  "AVFrame \<Rightarrow> int option \<Rightarrow> int \<Rightarrow> nat \<Rightarrow> nat \<Rightarrow> float_expr list \<Rightarrow> fault + float_expr list" where
  "write_samples fr chan chans i 0 buf = Inr buf"
| "write_samples fr chan chans i (Suc k) buf =
     (case sample_source (av_sample_fmt_is_planar (format fr)) chan chans (int i) of
        Inl e \<Rightarrow> Inl e
      | Inr (p, off) \<Rightarrow>
          (case sample_value (format fr) (fr_data fr) p off of
             Inl e \<Rightarrow> Inl e
           | Inr v \<Rightarrow> write_samples fr chan chans (Suc i) k (buf[i := v])))"

text \<open>
  Lines 295--341: a complete frame is in \<open>frame\<close>. The buffer grows to the frame's
  sample count when it is shorter and is kept otherwise; the result is the sample count.
\<close>

definition deliver :: "AudioFileImpl \<Rightarrow> fault + int \<times> AudioFileImpl" where
  "deliver s =
     (let n = nb_samples (frame s);
          s1 = (if n > buffer_len s
                then s\<lparr>buffer := buffer s @ replicate (nat (n - buffer_len s)) FloatUninit,
                       buffer_len := n\<rparr>
                else s)
      in case write_samples (frame s1) (channel s1) (channels s1) 0 (nat n) (buffer s1) of
           Inl e \<Rightarrow> Inl e
         | Inr buf \<Rightarrow> Inr (n, s1\<lparr>buffer := buf\<rparr>))"

text \<open>
  \<^verbatim>\<open>avcodec_decode_audio4\<close> is the library's decoder, an input of the reader: from the
  codec context and the packet it yields the number of bytes consumed (negative for an
  error), the frame if one is complete, and the codec context it has updated.
\<close>

type_synonym decoder = "AVCodecContext \<Rightarrow> AVPacket \<Rightarrow> int \<times> AVFrame option \<times> AVCodecContext"

text \<open>\<^verbatim>\<open>this->format_context->streams[this->audio_stream]->codec\<close> (line 280).\<close>

definition codec_context_of :: "AudioFileImpl \<Rightarrow> fault + AVFormatContext \<times> AVCodecContext" where
  "codec_context_of s =
     (case format_context s of
        None \<Rightarrow> Inl NullDeref
      | Some fc \<Rightarrow>
          if 0 \<le> audio_stream s \<and> audio_stream s < int (length (av_streams fc))
          then Inr (fc, codec (av_streams fc ! nat (audio_stream s)))
          else Inl OutOfBounds)"

text \<open>Lines 287--288: the packet after \<open>len\<close> of its bytes are consumed.\<close>

definition advance :: "AVPacket \<Rightarrow> int \<Rightarrow> AVPacket" where
  "advance pkt len =
     pkt\<lparr>pkt_data := map_option (\<lambda>(payload, pos). (payload, pos + len)) (pkt_data pkt),
         pkt_size := pkt_size pkt - len\<rparr>"

text \<open>
  How one pass through the body of the inner loop ends: with \<^verbatim>\<open>return samples\<close>, with
  \<^verbatim>\<open>continue\<close>, or by leaving the loop towards the next packet (\<^verbatim>\<open>break\<close>).
\<close>

datatype outcome = Returned int | Again | Fetch

text \<open>Lines 279--341, one pass through the body of \<^verbatim>\<open>while (this->packet.size > 0)\<close>.\<close>

definition decode_step :: "decoder \<Rightarrow> AudioFileImpl \<Rightarrow> fault + outcome \<times> AudioFileImpl" where
  "decode_step dec s =
     (case codec_context_of s of
        Inl e \<Rightarrow> Inl e
      | Inr (fc, cc) \<Rightarrow>
          (case dec cc (packet s) of
             (len, got, cc') \<Rightarrow>
               (let s1 = s\<lparr>format_context := Some (set_codec fc (nat (audio_stream s)) cc'),
                           frame := (case got of None \<Rightarrow> blank_frame | Some fr \<Rightarrow> fr)\<rparr>
                in if len < 0 then Inr (Fetch, s1)
                   else
                     (let s2 = s1\<lparr>packet := advance (packet s1) len,
                                   offset := offset s1 + len\<rparr>
                      in case got of
                           None \<Rightarrow> Inr (Again, s2)
                         | Some fr \<Rightarrow>
                             (case deliver s2 of
                                Inl e \<Rightarrow> Inl e
                              | Inr (n, s3) \<Rightarrow> Inr (Returned n, s3))))))"

definition AVERROR_EOF :: int where
  "AVERROR_EOF = - 541478725"

text \<open>
  Lines 350--356 over the packets the container has still to deliver. Modelled from the
  spec: \<^verbatim>\<open>av_read_frame\<close> hands out the next packet of \<open>demux\<close> with status 0, and at the
  end of the stream a negative status and an empty packet. The result is the status,
  the packet then held and the packets left.
\<close>

fun read_audio_packet :: "int \<Rightarrow> AVPacket list \<Rightarrow> int \<times> AVPacket \<times> AVPacket list" where
  "read_audio_packet a_stream [] = (AVERROR_EOF, blank_packet, [])"
| "read_audio_packet a_stream (p # ps) =
     (if stream_index p = a_stream then (0, p, ps) else read_audio_packet a_stream ps)"

text \<open>
  Lines 343--356: release the packet if it has data, then read up to the next packet of
  the selected stream. The result carries \<^verbatim>\<open>res\<close>.
\<close>

definition fetch_packet :: "AudioFileImpl \<Rightarrow> fault + int \<times> AudioFileImpl" where
  "fetch_packet s =
     (let s1 = (if pkt_data (packet s) \<noteq> None
                then s\<lparr>packet := blank_packet, offset := 0\<rparr> else s)
      in case format_context s1 of
           None \<Rightarrow> Inl NullDeref
         | Some fc \<Rightarrow>
             (case read_audio_packet (audio_stream s1) (demux fc) of
                (res, p, rest) \<Rightarrow>
                  Inr (res, s1\<lparr>packet := p, format_context := Some (fc\<lparr>demux := rest\<rparr>)\<rparr>)))"

text \<open>
  The loop \<^verbatim>\<open>for (;;)\<close> of lines 277--361, entered at the test of the inner loop. It need
  not end (a decoder may consume nothing and produce nothing for ever): the result is
  \<open>None\<close> then.
\<close>

partial_function (option) read_loop ::
  "decoder \<Rightarrow> AudioFileImpl \<Rightarrow> (fault + int \<times> AudioFileImpl) option" where
  "read_loop dec s =
     (case (if pkt_size (packet s) > 0 then decode_step dec s else Inr (Fetch, s)) of
        Inl e \<Rightarrow> Some (Inl e)
      | Inr (Returned n, s') \<Rightarrow> Some (Inr (n, s'))
      | Inr (Again, s') \<Rightarrow> read_loop dec s'
      | Inr (Fetch, s') \<Rightarrow>
          (case fetch_packet s' of
             Inl e \<Rightarrow> Some (Inl e)
           | Inr (res, s'') \<Rightarrow>
               if res < 0 then Some (Inr (0, s'')) else read_loop dec s''))"

text \<open>\<^verbatim>\<open>AudioFileImpl::read\<close>.\<close>

definition read :: "decoder \<Rightarrow> AudioFileImpl \<Rightarrow> (fault + int \<times> AudioFileImpl) option" where
  "read dec s = (if error s \<noteq> OK then Some (Inr (- 1, s)) else read_loop dec s)"

text \<open>Concrete sessions and a concrete decoder for the examples of the reader.\<close>

definition missing_file_lib :: av_lib where
  "missing_file_lib = (stub_lib empty_file 0)\<lparr>avformat_open_input := (\<lambda>name forced. None)\<rparr>"

text \<open>The session of a two-channel file of one second, resolved without error.\<close>

definition stereo_session :: AudioFileImpl where
  "stereo_session = Audio_open (stub_lib (mp3_file 14112000) 0) ''song.mp3'' [] 0"

text \<open>
  The same session after \<^verbatim>\<open>start(1, ...)\<close>, holding a decoded frame of two samples in
  packed signed 16-bit layout: left samples 10 and 30, right samples 20 and 40.
\<close>

definition packed_frame :: AVFrame where
  "packed_frame = \<lparr>nb_samples = 2, format = AV_SAMPLE_FMT_S16, fr_data = [[10, 20, 30, 40]]\<rparr>"

definition packed_session :: AudioFileImpl where
  "packed_session = stereo_session\<lparr>channel := Some 1, frame := packed_frame\<rparr>"

text \<open>
  A decoder that reports an error for payload 0 and for a packet without data, and
  otherwise consumes the whole packet and yields a planar frame of two samples per
  channel made from the payload.
\<close>

definition planar_frame :: "nat \<Rightarrow> AVFrame" where
  "planar_frame payload =
     \<lparr>nb_samples = 2, format = AV_SAMPLE_FMT_S16P,
      fr_data = [[int payload, int payload + 1], [int payload + 2, int payload + 3]]\<rparr>"

definition stub_decoder :: decoder where
  "stub_decoder cc pkt =
     (case pkt_data pkt of
        None \<Rightarrow> (- 1, None, cc)
      | Some (payload, pos) \<Rightarrow>
          if payload = 0 then (- 1, None, cc)
          else (pkt_size pkt, Some (planar_frame payload), cc))"

text \<open>
  A session in the middle of a stream: the current packet is corrupt, the container has
  a packet of another stream and then a sound packet of the selected stream to deliver.
\<close>

definition corrupt_packet :: AVPacket where
  "corrupt_packet = \<lparr>pkt_data = Some (0, 0), pkt_size = 417, stream_index = 0\<rparr>"

definition cover_packet :: AVPacket where
  "cover_packet = \<lparr>pkt_data = Some (5, 0), pkt_size = 1000, stream_index = 1\<rparr>"

definition sound_packet :: AVPacket where
  "sound_packet = \<lparr>pkt_data = Some (7, 0), pkt_size = 418, stream_index = 0\<rparr>"

definition mid_stream_file :: AVFormatContext where
  "mid_stream_file = (mp3_file 14112000)\<lparr>demux := [cover_packet, sound_packet]\<rparr>"

definition mid_stream_session :: AudioFileImpl where
  "mid_stream_session =
     stereo_session\<lparr>format_context := Some mid_stream_file, channel := Some 1,
                     packet := corrupt_packet\<rparr>"

text \<open>
  A file whose stream counts milliseconds and lasts 4007 ticks (44100 Hz, two channels),
  and its resolved session.
\<close>

definition ms_file :: AVFormatContext where
  "ms_file =
     \<lparr>av_streams = [\<lparr>codec = mp3_context, st_duration = 4007,
                      time_base_num = 1, time_base_den = 1000\<rparr>],
      fc_duration = 4007000, demux = []\<rparr>"

definition ms_session :: AudioFileImpl where
  "ms_session = Audio_open (stub_lib ms_file 0) ''clip.mka'' [] 0"

text \<open>An AAC stream that reports 16 bits per coded sample as well as a bit rate.\<close>

definition aac_context :: AVCodecContext where
  "aac_context =
     \<lparr>codec_type = AVMEDIA_TYPE_AUDIO, codec_id = AV_CODEC_ID_AAC,
      cc_bit_rate = 256000, cc_sample_rate = 48000,
      bits_per_raw_sample = 0, bits_per_coded_sample = 16,
      cc_channels = 2, sample_fmt = AV_SAMPLE_FMT_FLTP, decoder_state = 0\<rparr>"

section \<open>Properties of the interval scheduler\<close>

lemma wrap64_id: "is_int64 x \<Longrightarrow> wrap64 x = x"
  by (simp add: wrap64_def is_int64_def INT64_MIN_def INT64_MAX_def)

lemma c_rem_nonneg: "0 \<le> a \<Longrightarrow> 0 < b \<Longrightarrow> c_rem a b = a mod b"
  by (cases "a = 0") (simp_all add: c_rem_def)

lemma div_sub_self:
  fixes x B :: int
  assumes "0 < B"
  shows "(x - B) div B = x div B - 1"
proof -
  have "B \<noteq> 0" using assms by simp
  then have "(x + B * (-1)) div B = (-1) + x div B" by (rule div_mult_self2)
  then show ?thesis by simp
qed

lemma split_total:
  fixes T :: int
  assumes "0 < N" "0 < d"
  shows "N * (T div (N * d)) + (N * (T mod (N * d))) div (N * d) = T div d"
proof -
  have a: "(N * (T mod (N * d))) div (N * d) = (T mod (N * d)) div d"
    using assms by simp
  have d0: "d \<noteq> 0" using assms by simp
  have "T mod (N * d) + (N * d) * (T div (N * d)) = T" by (rule mod_mult_div_eq)
  then have "T mod (N * d) + d * (N * (T div (N * d))) = T" by (simp only: mult.assoc mult.left_commute mult.commute)
  then have "T div d = (T mod (N * d) + d * (N * (T div (N * d)))) div d" by simp
  also have "\<dots> = N * (T div (N * d)) + (T mod (N * d)) div d"
    using d0 by (rule div_mult_self2)
  finally show ?thesis using a by simp
qed

lemma bresenham_closed:
  assumes "0 < error_base p" "0 \<le> error_per_interval p" "error_per_interval p < error_base p"
  shows "0 \<le> acc \<Longrightarrow> acc < error_base p \<Longrightarrow>
     bresenham p n acc = int n * frames_per_interval p + (acc + int n * error_per_interval p) div error_base p"
proof (induction n arbitrary: acc)
  case 0
  then show ?case by simp
next
  case (Suc n)
  let ?B = "error_base p" and ?e = "error_per_interval p" and ?f = "frames_per_interval p"
  show ?case
  proof (cases "acc + ?e \<ge> ?B")
    case True
    have a: "0 \<le> acc + ?e - ?B" "acc + ?e - ?B < ?B" using True Suc.prems assms by auto
    have "(acc + ?e - ?B + int n * ?e) div ?B = (acc + ?e + int n * ?e - ?B) div ?B" by (simp add: algebra_simps)
    also have "\<dots> = (acc + ?e + int n * ?e) div ?B - 1"
      using assms(1) by (rule div_sub_self)
    finally have d: "(acc + ?e - ?B + int n * ?e) div ?B = (acc + ?e + int n * ?e) div ?B - 1" .
    have "bresenham p (Suc n) acc = ?f + 1 + bresenham p n (acc + ?e - ?B)"
      using True by (simp add: Let_def)
    also have "\<dots> = ?f + 1 + (int n * ?f + (acc + ?e + int n * ?e) div ?B - 1)"
      using Suc.IH[OF a] d by simp
    also have "\<dots> = int (Suc n) * ?f + (acc + int (Suc n) * ?e) div ?B"
      by (simp add: algebra_simps)
    finally show ?thesis .
  next
    case False
    have a: "0 \<le> acc + ?e" "acc + ?e < ?B" using False Suc.prems assms by auto
    have "bresenham p (Suc n) acc = ?f + bresenham p n (acc + ?e)"
      using False by (simp add: Let_def)
    also have "\<dots> = ?f + (int n * ?f + (acc + ?e + int n * ?e) div ?B)"
      using Suc.IH[OF a] by simp
    also have "\<dots> = int (Suc n) * ?f + (acc + int (Suc n) * ?e) div ?B"
      by (simp add: algebra_simps)
    finally show ?thesis .
  qed
qed


lemma plan_in_range:
  assumes "0 \<le> ticks" "0 \<le> srate" "0 \<le> tb_num" "0 < tb_den" "1 \<le> samples"
    and "is_int32 srate" "is_int32 tb_num" "is_int32 tb_den" "is_int32 samples"
    and "is_int64 (ticks * (srate * tb_num))"
  shows "plan ticks srate tb_num tb_den samples =
           Inr \<lparr>frames_per_interval = (ticks * (srate * tb_num)) div (samples * tb_den),
                error_per_interval = (ticks * (srate * tb_num)) mod (samples * tb_den),
                error_base = samples * tb_den\<rparr>"
proof -
  let ?T = "ticks * (srate * tb_num)" and ?B = "samples * tb_den"
  have r0: "0 \<le> srate * tb_num" using assms(2,3) by simp
  have "srate * tb_num \<le> INT32_MAX * INT32_MAX"
    using assms(2,3,6,7) by (intro mult_mono) (simp_all add: is_int32_def)
  then have r1: "is_int64 (srate * tb_num)"
    using r0 by (simp add: is_int64_def INT64_MIN_def INT64_MAX_def INT32_MAX_def)
  have b0: "0 < ?B" using assms(4,5) by simp
  have "?B \<le> INT32_MAX * INT32_MAX"
    using assms(4,5,8,9) by (intro mult_mono) (simp_all add: is_int32_def)
  then have b1: "is_int64 ?B"
    using b0 by (simp add: is_int64_def INT64_MIN_def INT64_MAX_def INT32_MAX_def)
  have t0: "0 \<le> ?T" using assms(1) r0 by simp
  have q0: "0 \<le> ?T div ?B" using t0 b0 by (simp add: pos_imp_zdiv_nonneg_iff)
  have "?T div ?B \<le> ?T div 1" using t0 b0 by (intro zdiv_mono2) simp_all
  then have "?T div ?B \<le> ?T" by simp
  then have q1: "is_int64 (?T div ?B)"
    using q0 assms(10) by (simp add: is_int64_def INT64_MIN_def)
  have w1: "wrap64 (srate * tb_num) = srate * tb_num" using r1 by (rule wrap64_id)
  have w2: "wrap64 ?B = ?B" using b1 by (rule wrap64_id)
  have w3: "wrap64 ?T = ?T" using assms(10) by (rule wrap64_id)
  have f: "av_rescale_rnd_down ticks (srate * tb_num) ?B = ?T div ?B"
    using b0 r0 q1 by (simp add: av_rescale_rnd_down_def)
  have e: "c_rem ?T ?B = ?T mod ?B" using t0 b0 by (rule c_rem_nonneg)
  have nz: "\<not> (?B = 0 \<or> (?B = - 1 \<and> ?T = INT64_MIN))" using b0 by auto
  show ?thesis
    unfolding plan_def Let_def w1 w2 w3 f e using nz by (simp only: if_False)
qed

text \<open>
  For any tick count in range the accumulation over the plan adds up to the floor of
  \<open>ticks * rate / tb_den\<close>.
\<close>

lemma plan_total:
  assumes "0 \<le> ticks" "0 \<le> srate" "0 \<le> tb_num" "0 < tb_den" "1 \<le> samples"
    and "is_int32 srate" "is_int32 tb_num" "is_int32 tb_den" "is_int32 samples"
    and "is_int64 (ticks * (srate * tb_num))"
  shows "plan ticks srate tb_num tb_den samples =
           Inr \<lparr>frames_per_interval = (ticks * (srate * tb_num)) div (samples * tb_den),
                error_per_interval = (ticks * (srate * tb_num)) mod (samples * tb_den),
                error_base = samples * tb_den\<rparr>
         \<and> bresenham
              \<lparr>frames_per_interval = (ticks * (srate * tb_num)) div (samples * tb_den),
               error_per_interval = (ticks * (srate * tb_num)) mod (samples * tb_den),
               error_base = samples * tb_den\<rparr>
              (nat samples) 0
             = (ticks * (srate * tb_num)) div tb_den"
proof -
  let ?T = "ticks * (srate * tb_num)" and ?B = "samples * tb_den"
  let ?p = "\<lparr>frames_per_interval = ?T div ?B, error_per_interval = ?T mod ?B, error_base = ?B\<rparr>"
  have pl: "plan ticks srate tb_num tb_den samples = Inr ?p"
    using assms by (rule plan_in_range)
  have b0: "0 < ?B" using assms(4,5) by simp
  have "bresenham ?p (nat samples) 0 =
          int (nat samples) * frames_per_interval ?p
            + (0 + int (nat samples) * error_per_interval ?p) div error_base ?p"
    using b0 by (intro bresenham_closed) simp_all
  also have "\<dots> = samples * (?T div ?B) + (samples * (?T mod ?B)) div ?B"
    using assms(5) by simp
  also have "\<dots> = ?T div tb_den"
    using assms(4,5) by (intro split_total) simp_all
  finally have "bresenham ?p (nat samples) 0 = ?T div tb_den" .
  then show ?thesis using pl by simp
qed

section \<open>Facts about the floating-point values\<close>

text \<open>
  An integer below \<open>2 ^ 24\<close> in magnitude is a \<^verbatim>\<open>float\<close>: its conversion is exact, so
  dividing it by an exactly represented constant rounds the true quotient once.
\<close>

lemma bit_length_nonneg: "0 \<le> bit_length n"
proof (induction n rule: bit_length.induct)
  case (1 n)
  show ?case
  proof (cases "n \<le> 0")
    case True
    then show ?thesis by (subst bit_length.simps) simp
  next
    case False
    with 1 have "0 \<le> bit_length (n div 2)" by simp
    with False show ?thesis by (subst bit_length.simps) simp
  qed
qed

lemma bit_length_bounds:
  "0 < n \<Longrightarrow> 0 < bit_length n \<and> 2 ^ nat (bit_length n - 1) \<le> n \<and> n < 2 ^ nat (bit_length n)"
proof (induction n rule: bit_length.induct)
  case (1 n)
  have bl: "bit_length n = 1 + bit_length (n div 2)"
    using 1(2) by (subst bit_length.simps) simp
  show ?case
  proof (cases "n = 1")
    case True
    have "bit_length (0::int) = 0" by (subst bit_length.simps) simp
    then have "bit_length n = 1" using bl True by simp
    then show ?thesis using True by simp
  next
    case False
    with 1(2) have h: "0 < n div 2" by simp
    with 1 have ih: "0 < bit_length (n div 2)"
        "2 ^ nat (bit_length (n div 2) - 1) \<le> n div 2"
        "n div 2 < 2 ^ nat (bit_length (n div 2))"
      by simp_all
    define k where "k = nat (bit_length (n div 2) - 1)"
    have k: "bit_length (n div 2) = int k + 1" using ih(1) by (simp add: k_def)
    have a: "(2::int) ^ k \<le> n div 2" using ih(2) by (simp add: k_def)
    have b: "n div 2 < (2::int) ^ Suc k" using ih(3) by (simp add: k nat_add_distrib)
    have c: "bit_length n = int k + 2" using bl k by simp
    have "2 * (2::int) ^ k \<le> n" using a by linarith
    moreover have "n < 2 * (2::int) ^ Suc k" using b by linarith
    ultimately show ?thesis by (simp add: c nat_add_distrib)
  qed
qed

lemma bit_length_le:
  assumes "0 < n" "n < 2 ^ k"
  shows "bit_length n \<le> int k"
proof -
  from bit_length_bounds [OF assms(1)]
  have p: "0 < bit_length n" and l: "(2::int) ^ nat (bit_length n - 1) \<le> n" by simp_all
  from l assms(2) have "(2::int) ^ nat (bit_length n - 1) < 2 ^ k" by linarith
  then have "nat (bit_length n - 1) < k" by simp
  then show ?thesis using p by linarith
qed

lemma strip_zeros_shift:
  "0 < n \<Longrightarrow> strip_zeros (n * 2 ^ k) (s - int k) = strip_zeros n s"
proof (induction k arbitrary: s)
  case 0
  then show ?case by simp
next
  case (Suc k)
  have pos: "\<not> n * 2 ^ Suc k \<le> 0" using Suc(2) by (simp add: not_le zero_less_mult_iff)
  have ev: "even (n * 2 ^ Suc k)" by simp
  have dv: "n * 2 ^ Suc k div 2 = n * 2 ^ k" by simp
  have "strip_zeros (n * 2 ^ Suc k) (s - int (Suc k)) = strip_zeros (n * 2 ^ k) (s - int (Suc k) + 1)"
    using strip_zeros.simps [of "n * 2 ^ Suc k" "s - int (Suc k)"] pos ev dv by (simp only: if_True if_False)
  also have "s - int (Suc k) + 1 = s - int k" by simp
  finally show ?case using Suc by simp
qed

lemma strip_zeros_value:
  "0 < n \<Longrightarrow> strip_zeros n s = (m, e) \<Longrightarrow> s \<le> e \<and> n = m * 2 ^ nat (e - s)"
proof (induction n s rule: strip_zeros.induct)
  case (1 n s)
  show ?case
  proof (cases "even n")
    case True
    with 1(2) have h: "0 < n div 2" by presburger
    from 1(2,3) True have "strip_zeros (n div 2) (s + 1) = (m, e)"
      by (subst (asm) strip_zeros.simps) simp
    with 1(1) 1(2) True h have ih: "s + 1 \<le> e" "n div 2 = m * 2 ^ nat (e - (s + 1))"
      by simp_all
    have "nat (e - s) = Suc (nat (e - (s + 1)))" using ih(1) by simp
    moreover have "n = 2 * (n div 2)" using True by presburger
    ultimately show ?thesis using ih by simp
  next
    case False
    with 1(2,3) have "m = n" "e = s" by (subst (asm) strip_zeros.simps, simp)+
    then show ?thesis by simp
  qed
qed

lemma binary32_of_small_int:
  assumes "0 < a" "a < 2 ^ 24" "\<bar>raw\<bar> = a" "strip_zeros a 0 = (m, e)"
  shows "binary32 raw 1 = Finite (sgn raw * m) e"
proof -
  from bit_length_bounds [OF assms(1)]
  have p: "0 < bit_length a" and lo: "(2::int) ^ nat (bit_length a - 1) \<le> a"
    and hi: "a < 2 ^ nat (bit_length a)" by simp_all
  have le: "bit_length a \<le> 24" using bit_length_le [OF assms(1), of 24] assms(2) by simp
  have one: "bit_length 1 = 1"
    by (subst bit_length.simps, subst bit_length.simps) simp
  define d where "d = bit_length a - 1"
  have d: "0 \<le> d" "d \<le> 23" using p le by (simp_all add: d_def)
  define k where "k = nat (23 - d)"
  have s: "max (d - 23) (- 149) = - int k" using d by (simp add: k_def)
  have "a * 2 ^ k < 2 ^ nat (bit_length a) * 2 ^ k" using hi by simp
  also have "\<dots> = 2 ^ (nat (bit_length a) + k)" by (simp add: power_add)
  also have "nat (bit_length a) + k = 24" using d by (simp add: k_def d_def)
  finally have n24: "a * 2 ^ k < 2 ^ 24" .
  have npos: "0 < a * 2 ^ k" using assms(1) by simp
  have bn: "bit_length (a * 2 ^ k) \<le> 24" using bit_length_le [OF npos, of 24] n24 by simp
  have sz: "strip_zeros (a * 2 ^ k) (- int k) = (m, e)"
    using strip_zeros_shift [OF assms(1), of k 0] assms(4) by simp
  have raw0: "raw \<noteq> 0" using assms(1,3) by auto
  have lg: "(2::int) ^ nat d \<le> a" using lo by (simp add: d_def)
  show ?thesis
    unfolding binary32_def round_ratio_def Let_def
    using raw0 lg d bn sz
    by (simp add: assms(3) one d_def [symmetric] s)
qed

lemma float_of_small_int_over:
  assumes "\<bar>raw\<bar> < 2 ^ 24" "ieee_of_int binary32 b = Finite b 0" "0 < b"
  shows "float_of (IntOverFloat raw b) = Some (binary32 raw b)"
proof (cases "raw = 0")
  case True
  have "ieee_of_int binary32 0 = Finite 0 0"
    by (simp add: ieee_of_int_def binary32_def round_ratio_def)
  then show ?thesis
    using True assms(2,3) by (simp add: ieee_div_def)
next
  case False
  obtain m e where sz: "strip_zeros \<bar>raw\<bar> 0 = (m, e)"
    by (cases "strip_zeros \<bar>raw\<bar> 0") blast
  have pos: "0 < \<bar>raw\<bar>" using False by simp
  from strip_zeros_value [OF pos sz] have e: "0 \<le> e" and v: "\<bar>raw\<bar> = m * 2 ^ nat e"
    by simp_all
  have r: "ieee_of_int binary32 raw = Finite (sgn raw * m) e"
    unfolding ieee_of_int_def using binary32_of_small_int [OF pos assms(1) refl sz] .
  have "raw = sgn raw * \<bar>raw\<bar>" by (simp add: sgn_mult_abs)
  then have raw: "sgn raw * m * 2 ^ nat e = raw" using v by (simp add: mult.assoc)
  have s: "sgn b = 1" "\<bar>b\<bar> = b" "b \<noteq> 0" using assms(3) by simp_all
  have n: "nat (0 - e) = 0" "nat (e - 0) = nat e" using e by simp_all
  have "ieee_div binary32 (Finite (sgn raw * m) e) (Finite b 0) = binary32 raw b"
    unfolding ieee_div_def by (simp only: ieee.case s n if_False power_0 mult_1 mult_1_right raw)
  then show ?thesis by (simp add: r assms(2))
qed

lemma float_const_16: "ieee_of_int binary32 32767 = Finite 32767 0"
  by code_simp

lemma float_const_32: "ieee_of_int binary32 2147483647 = Finite 1 31"
  by code_simp

section \<open>Properties of the source resolver\<close>

lemma scan_streams_count:
  "snd (scan_streams stream sts i (a, n)) = n + audio_count sts"
  by (induction sts arbitrary: i a n) (simp_all add: audio_count_def)

lemma scan_streams_miss:
  "stream < n \<or> n + audio_count sts \<le> stream \<Longrightarrow> fst (scan_streams stream sts i (a, n)) = a"
proof (induction sts arbitrary: i a n)
  case Nil
  then show ?case by simp
next
  case (Cons st sts)
  show ?case
  proof (cases "codec_type (codec st) = AVMEDIA_TYPE_AUDIO")
    case True
    then have c: "audio_count (st # sts) = 1 + audio_count sts" by (simp add: audio_count_def)
    have ne: "stream \<noteq> n" using Cons.prems c by (auto simp: audio_count_def)
    have "stream < n + 1 \<or> n + 1 + audio_count sts \<le> stream" using Cons.prems c ne by auto
    then have "fst (scan_streams stream sts (i + 1) (a, n + 1)) = a" by (rule Cons.IH)
    then show ?thesis using True ne by simp
  next
    case False
    then have c: "audio_count (st # sts) = audio_count sts" by (simp add: audio_count_def)
    have "fst (scan_streams stream sts (i + 1) (a, n)) = a" using Cons.prems c by (intro Cons.IH) simp
    then show ?thesis using False by simp
  qed
qed

lemma scan_streams_hit:
  "n \<le> stream \<Longrightarrow> stream < n + audio_count sts \<Longrightarrow>
     i \<le> fst (scan_streams stream sts i (a, n)) \<and>
     fst (scan_streams stream sts i (a, n)) < i + int (length sts)"
proof (induction sts arbitrary: i a n)
  case Nil
  then show ?case by (simp add: audio_count_def)
next
  case (Cons st sts)
  show ?case
  proof (cases "codec_type (codec st) = AVMEDIA_TYPE_AUDIO")
    case True
    then have c: "audio_count (st # sts) = 1 + audio_count sts" by (simp add: audio_count_def)
    show ?thesis
    proof (cases "stream = n")
      case eq: True
      have "stream < n + 1 \<or> n + 1 + audio_count sts \<le> stream" using eq by simp
      then have "fst (scan_streams stream sts (i + 1) (i, n + 1)) = i" by (rule scan_streams_miss)
      then show ?thesis using True eq by simp
    next
      case ne: False
      have "n + 1 \<le> stream" "stream < n + 1 + audio_count sts" using Cons.prems c ne by auto
      then have "i + 1 \<le> fst (scan_streams stream sts (i + 1) (a, n + 1)) \<and>
                 fst (scan_streams stream sts (i + 1) (a, n + 1)) < i + 1 + int (length sts)"
        by (rule Cons.IH)
      then show ?thesis using True ne by simp
    qed
  next
    case False
    then have c: "audio_count (st # sts) = audio_count sts" by (simp add: audio_count_def)
    have "i + 1 \<le> fst (scan_streams stream sts (i + 1) (a, n)) \<and>
          fst (scan_streams stream sts (i + 1) (a, n)) < i + 1 + int (length sts)"
      using Cons.prems c by (intro Cons.IH) simp_all
    then show ?thesis using False by simp
  qed
qed

lemma open_input_skip: "l_error v \<noteq> OK \<Longrightarrow> open_input lib f d v = v"
  by (simp add: open_input_def)

lemma probe_streams_skip: "l_error v \<noteq> OK \<Longrightarrow> probe_streams lib v = v"
  by (simp add: probe_streams_def)

lemma select_stream_skip: "l_error v \<noteq> OK \<Longrightarrow> select_stream n v = v"
  by (simp add: select_stream_def)

lemma find_decoder_skip: "l_error v \<noteq> OK \<Longrightarrow> find_decoder lib v = v"
  by (simp add: find_decoder_def)

lemma fill_stream_info_skip: "l_error v \<noteq> OK \<Longrightarrow> fill_stream_info d v = v"
  by (simp add: fill_stream_info_def)

lemma open_decoder_skip: "l_error v \<noteq> OK \<Longrightarrow> open_decoder lib v = v"
  by (simp add: open_decoder_def)

lemma check_sample_fmt_skip: "l_error v \<noteq> OK \<Longrightarrow> check_sample_fmt v = v"
  by (simp add: check_sample_fmt_def)

lemmas step_skips = open_input_skip probe_streams_skip select_stream_skip find_decoder_skip
  fill_stream_info_skip open_decoder_skip check_sample_fmt_skip

lemma run_steps_append: "run_steps (xs @ ys) v = run_steps ys (run_steps xs v)"
  by (simp add: run_steps_def)

lemma run_steps_skip:
  assumes "l_error v \<noteq> OK" and skip: "\<And>f w. f \<in> set fs \<Longrightarrow> l_error w \<noteq> OK \<Longrightarrow> f w = w"
  shows "run_steps fs v = v"
  using skip
proof (induction fs)
  case Nil
  show ?case by (simp add: run_steps_def)
next
  case (Cons g gs)
  have "g v = v" using assms(1) by (intro Cons.prems) simp_all
  moreover have "run_steps gs v = v" by (rule Cons.IH) (simp add: Cons.prems)
  ultimately show ?case by (simp add: run_steps_def)
qed

lemma later_steps_skip:
  assumes "1 \<le> k" "f \<in> set (drop k (open_steps lib file dev n))" "l_error w \<noteq> OK"
  shows "f w = w"
proof -
  have "set (drop k (open_steps lib file dev n)) \<subseteq> set (drop 1 (open_steps lib file dev n))"
    using assms(1) by (metis set_drop_subset_set_drop)
  then have "f \<in> set (drop 1 (open_steps lib file dev n))" using assms(2) by blast
  then show ?thesis using assms(3) by (auto simp: open_steps_def step_skips)
qed

lemma open_short_circuit:
  assumes "1 \<le> k" "l_error (open_after k lib file dev n) \<noteq> OK"
  shows "Audio_open lib file dev n = session_of (open_after k lib file dev n)"
proof -
  let ?steps = "open_steps lib file dev n"
  have "run_steps ?steps open_init = run_steps (take k ?steps @ drop k ?steps) open_init" by simp
  also have "\<dots> = run_steps (drop k ?steps) (open_after k lib file dev n)"
    by (simp only: run_steps_append open_after_def)
  also have "\<dots> = open_after k lib file dev n"
    using assms(2) later_steps_skip[OF assms(1)] by (rule run_steps_skip)
  finally show ?thesis by (simp add: Audio_open_def)
qed

lemma fill_stream_info_OK: "l_error (fill_stream_info d v) = OK \<Longrightarrow> l_error v = OK"
  by (cases "l_error v = OK") (simp_all add: fill_stream_info_def)

lemma open_decoder_OK: "l_error (open_decoder lib v) = OK \<Longrightarrow> l_error v = OK"
  by (cases "l_error v = OK") (simp_all add: open_decoder_def)

lemma check_sample_fmt_OK: "l_error (check_sample_fmt v) = OK \<Longrightarrow> l_error v = OK"
  by (cases "l_error v = OK") (simp_all add: check_sample_fmt_def)

lemma open_after_0: "open_after 0 lib f d n = open_init"
  by (simp add: open_after_def run_steps_def)

lemma open_after_1: "open_after 1 lib f d n = find_device lib d open_init"
  by (simp add: open_after_def run_steps_def open_steps_def)

lemma open_after_2: "open_after 2 lib f d n = open_input lib f d (open_after 1 lib f d n)"
  by (simp add: open_after_def run_steps_def open_steps_def numeral_2_eq_2)

lemma open_after_3: "open_after 3 lib f d n = probe_streams lib (open_after 2 lib f d n)"
  by (simp add: open_after_def run_steps_def open_steps_def eval_nat_numeral)

lemma open_after_4: "open_after 4 lib f d n = select_stream n (open_after 3 lib f d n)"
  by (simp add: open_after_def run_steps_def open_steps_def eval_nat_numeral)

lemma open_after_5: "open_after 5 lib f d n = find_decoder lib (open_after 4 lib f d n)"
  by (simp add: open_after_def run_steps_def open_steps_def eval_nat_numeral)

lemma open_after_6: "open_after 6 lib f d n = fill_stream_info d (open_after 5 lib f d n)"
  by (simp add: open_after_def run_steps_def open_steps_def eval_nat_numeral)

lemma open_after_7: "open_after 7 lib f d n = open_decoder lib (open_after 6 lib f d n)"
  by (simp add: open_after_def run_steps_def open_steps_def eval_nat_numeral)

lemma open_after_8: "open_after 8 lib f d n = check_sample_fmt (open_after 7 lib f d n)"
  by (simp add: open_after_def run_steps_def open_steps_def eval_nat_numeral)

lemma Audio_open_8: "Audio_open lib f d n = session_of (open_after 8 lib f d n)"
  by (simp add: open_after_def Audio_open_def open_steps_def)


text \<open>
  While the error is \<open>OK\<close> the container handle is present from the second block on,
  the selected index lies inside the stream array from the fourth block on, and the
  decoder is present from the fifth block on. So no block of \<^verbatim>\<open>open\<close> dereferences a null
  pointer or indexes outside the streams.
\<close>

lemma stage2_ok:
  assumes "l_error (open_after 2 lib f d n) = OK"
  shows "\<exists>fc. l_format_context (open_after 2 lib f d n) = Some fc"
  using assms
  by (auto simp: open_after_2 open_after_1 open_input_def find_device_def open_init_def
      split: option.splits if_splits)

lemma stage3_ok:
  assumes "l_error (open_after 3 lib f d n) = OK"
  shows "l_error (open_after 2 lib f d n) = OK \<and>
         (\<exists>fc. l_format_context (open_after 3 lib f d n) = Some fc)"
proof -
  have e2: "l_error (open_after 2 lib f d n) = OK"
    using assms by (auto simp: open_after_3 probe_streams_def split: option.splits if_splits prod.splits)
  then obtain fc where "l_format_context (open_after 2 lib f d n) = Some fc"
    using stage2_ok by blast
  then show ?thesis
    using assms e2 by (auto simp: open_after_3 probe_streams_def split: option.splits if_splits prod.splits)
qed

lemma stage4_ok:
  assumes "l_error (open_after 4 lib f d n) = OK"
  shows "l_error (open_after 3 lib f d n) = OK \<and>
         (\<exists>fc. l_format_context (open_after 4 lib f d n) = Some fc \<and>
               l_format_context (open_after 3 lib f d n) = Some fc \<and>
               0 \<le> n \<and> n < audio_count (av_streams fc) \<and>
               0 \<le> l_audio_stream (open_after 4 lib f d n) \<and>
               l_audio_stream (open_after 4 lib f d n) < int (length (av_streams fc)))"
proof -
  let ?v3 = "open_after 3 lib f d n"
  have e3: "l_error ?v3 = OK"
    using assms by (auto simp: open_after_4 select_stream_def split: option.splits if_splits prod.splits)
  then obtain fc where fc: "l_format_context ?v3 = Some fc"
    using stage3_ok by blast
  obtain a m where sc: "scan_streams n (av_streams fc) 0 (- 1, 0) = (a, m)"
    by (cases "scan_streams n (av_streams fc) 0 (- 1, 0)")
  have a: "a \<noteq> - 1" "l_audio_stream (open_after 4 lib f d n) = a"
       "l_format_context (open_after 4 lib f d n) = Some fc"
    using assms e3 fc sc by (auto simp: open_after_4 select_stream_def split: if_splits)
  have rng: "0 \<le> n \<and> n < 0 + audio_count (av_streams fc)"
  proof (rule ccontr)
    assume "\<not> ?thesis"
    then have "n < 0 \<or> 0 + audio_count (av_streams fc) \<le> n" by auto
    then have "fst (scan_streams n (av_streams fc) 0 (- 1, 0)) = - 1" by (rule scan_streams_miss)
    then show False using sc a(1) by simp
  qed
  then have "0 \<le> fst (scan_streams n (av_streams fc) 0 (- 1, 0)) \<and>
             fst (scan_streams n (av_streams fc) 0 (- 1, 0)) < 0 + int (length (av_streams fc))"
    by (intro scan_streams_hit) simp_all
  then show ?thesis using e3 a fc sc rng by simp
qed

lemma stage5_ok:
  assumes "l_error (open_after 5 lib f d n) = OK"
  shows "l_error (open_after 4 lib f d n) = OK \<and>
         (\<exists>fc c. l_format_context (open_after 5 lib f d n) = Some fc \<and>
                 l_codec (open_after 5 lib f d n) = Some c \<and>
                 avcodec_find_decoder lib
                   (codec_id (codec (av_streams fc ! nat (l_audio_stream (open_after 5 lib f d n)))))
                   = Some c \<and>
                 0 \<le> l_audio_stream (open_after 5 lib f d n) \<and>
                 l_audio_stream (open_after 5 lib f d n) < int (length (av_streams fc)))"
proof -
  let ?v4 = "open_after 4 lib f d n"
  have e4: "l_error ?v4 = OK"
    using assms by (auto simp: open_after_5 find_decoder_def split: option.splits if_splits)
  then obtain fc where fc: "l_format_context ?v4 = Some fc"
      "0 \<le> l_audio_stream ?v4" "l_audio_stream ?v4 < int (length (av_streams fc))"
    using stage4_ok by blast
  then show ?thesis
    using assms e4 by (auto simp: open_after_5 find_decoder_def split: option.splits)
qed

lemma fill_stream_info_keeps:
  "l_format_context (fill_stream_info d v) = l_format_context v"
  "l_codec (fill_stream_info d v) = l_codec v"
  "l_audio_stream (fill_stream_info d v) = l_audio_stream v"
  by (simp_all add: fill_stream_info_def Let_def split: option.splits)

lemma stage6_ok:
  assumes "l_error (open_after 6 lib f d n) = OK"
  shows "l_error (open_after 5 lib f d n) = OK \<and>
         (\<exists>fc c. l_format_context (open_after 6 lib f d n) = Some fc \<and>
                 l_codec (open_after 6 lib f d n) = Some c \<and>
                 0 \<le> l_audio_stream (open_after 6 lib f d n) \<and>
                 l_audio_stream (open_after 6 lib f d n) < int (length (av_streams fc)))"
proof -
  let ?v5 = "open_after 5 lib f d n"
  have e5: "l_error ?v5 = OK"
    using assms unfolding open_after_6 by (rule fill_stream_info_OK)
  then obtain fc c where fc: "l_format_context ?v5 = Some fc" "l_codec ?v5 = Some c"
      "0 \<le> l_audio_stream ?v5" "l_audio_stream ?v5 < int (length (av_streams fc))"
    using stage5_ok by blast
  show ?thesis using e5 fc by (simp add: open_after_6 fill_stream_info_keeps)
qed

lemma stage7_ok:
  assumes "l_error (open_after 7 lib f d n) = OK"
  shows "l_error (open_after 6 lib f d n) = OK \<and>
         (\<exists>fc. l_format_context (open_after 7 lib f d n) = Some fc \<and>
               0 \<le> l_audio_stream (open_after 7 lib f d n) \<and>
               l_audio_stream (open_after 7 lib f d n) < int (length (av_streams fc)))"
proof -
  let ?v6 = "open_after 6 lib f d n"
  have e6: "l_error ?v6 = OK"
    using assms unfolding open_after_7 by (rule open_decoder_OK)
  then obtain fc c where fc: "l_format_context ?v6 = Some fc" "l_codec ?v6 = Some c"
      "0 \<le> l_audio_stream ?v6" "l_audio_stream ?v6 < int (length (av_streams fc))"
    using stage6_ok by blast
  obtain ret cc' where o: "avcodec_open2 lib (codec (av_streams fc ! nat (l_audio_stream ?v6))) c
      = (ret, cc')"
    by (cases "avcodec_open2 lib (codec (av_streams fc ! nat (l_audio_stream ?v6))) c")
  have "l_format_context (open_decoder lib ?v6)
          = Some (set_codec fc (nat (l_audio_stream ?v6)) cc')"
       "l_audio_stream (open_decoder lib ?v6) = l_audio_stream ?v6"
    using e6 fc(1,2) o by (simp_all add: open_decoder_def)
  then show ?thesis using e6 fc by (simp add: open_after_7 set_codec_def)
qed

lemma open_after_unfold:
  "open_after (Suc 0) lib f d n = find_device lib d open_init"
  "open_after 2 lib f d n = open_input lib f d (find_device lib d open_init)"
  "open_after 3 lib f d n = probe_streams lib (open_input lib f d (find_device lib d open_init))"
  "open_after 4 lib f d n =
     select_stream n (probe_streams lib (open_input lib f d (find_device lib d open_init)))"
  "open_after 5 lib f d n =
     find_decoder lib (select_stream n (probe_streams lib
       (open_input lib f d (find_device lib d open_init))))"
  "open_after 6 lib f d n =
     fill_stream_info d (find_decoder lib (select_stream n (probe_streams lib
       (open_input lib f d (find_device lib d open_init)))))"
  "open_after 7 lib f d n =
     open_decoder lib (fill_stream_info d (find_decoder lib (select_stream n (probe_streams lib
       (open_input lib f d (find_device lib d open_init))))))"
  "open_after 8 lib f d n =
     check_sample_fmt (open_decoder lib (fill_stream_info d (find_decoder lib
       (select_stream n (probe_streams lib
         (open_input lib f d (find_device lib d open_init)))))))"
  using open_after_1 [of lib f d n]
  by (simp_all only: open_after_2 open_after_3 open_after_4 open_after_5 open_after_6
      open_after_7 open_after_8 One_nat_def)

lemmas open_eval = open_after_unfold Audio_open_8 find_device_def open_input_def
  probe_streams_def select_stream_def find_decoder_def fill_stream_info_def open_decoder_def
  check_sample_fmt_def session_of_def AudioFileImpl_new_def open_init_def set_codec_def
  stub_lib_def mp3_file_def audio_file_def mp3_context_def flac_context_def empty_file_def Let_def sets_both_def
  reported_bits_def supported_format_def




lemma select_stream_not_NO_STREAMS:
  "l_error v \<noteq> NO_STREAMS \<Longrightarrow> l_error (select_stream n v) \<noteq> NO_STREAMS"
  by (auto simp: select_stream_def split: option.splits prod.splits)

lemma find_decoder_not_NO_STREAMS:
  "l_error v \<noteq> NO_STREAMS \<Longrightarrow> l_error (find_decoder lib v) \<noteq> NO_STREAMS"
  by (auto simp: find_decoder_def split: option.splits)

lemma fill_stream_info_not_NO_STREAMS:
  "l_error v \<noteq> NO_STREAMS \<Longrightarrow> l_error (fill_stream_info d v) \<noteq> NO_STREAMS"
  by (auto simp: fill_stream_info_def Let_def split: option.splits)

lemma open_decoder_not_NO_STREAMS:
  "l_error v \<noteq> NO_STREAMS \<Longrightarrow> l_error (open_decoder lib v) \<noteq> NO_STREAMS"
  by (auto simp: open_decoder_def split: option.splits prod.splits)

lemma check_sample_fmt_not_NO_STREAMS:
  "l_error v \<noteq> NO_STREAMS \<Longrightarrow> l_error (check_sample_fmt v) \<noteq> NO_STREAMS"
  by (auto simp: check_sample_fmt_def split: option.splits)

lemma probed_stage:
  assumes "avformat_open_input lib f False = Some fc0"
    and "avformat_find_stream_info lib fc0 = (ret, fc)"
  shows "open_after 3 lib f [] n =
           open_init\<lparr>l_format_context := Some fc,
                     l_error := (if ret < 0 \<and> av_streams fc = [] then NO_STREAMS else OK)\<rparr>"
  using assms
  by (simp add: open_after_unfold find_device_def open_input_def probe_streams_def open_init_def)

text \<open>
  Claim C6, as the code has it. For a file that opens, when the container has no streams
  after probing, resolution fails and every stream-info field keeps its zero default:
  with \<open>NO_STREAMS\<close> when the probe itself failed, and with \<open>NO_AUDIO\<close> when the probe
  succeeded (the test of line 107 sits inside the test for a failed probe). A failed
  probe that still yields streams never produces \<open>NO_STREAMS\<close>.
\<close>

theorem open_no_streams:
  assumes "avformat_open_input lib f False = Some fc0"
    and "avformat_find_stream_info lib fc0 = (ret, fc)"
  shows "(av_streams fc = [] \<longrightarrow>
            Audio_open lib f [] n =
              AudioFileImpl_new (if ret < 0 then NO_STREAMS else NO_AUDIO) (Some fc) (- 1)
                [] 0 0 0 0 0 (DoubleConst 0))
         \<and> (ret < 0 \<and> av_streams fc \<noteq> [] \<longrightarrow> error (Audio_open lib f [] n) \<noteq> NO_STREAMS)"
proof (intro conjI impI)
  assume e: "av_streams fc = []"
  show "Audio_open lib f [] n =
          AudioFileImpl_new (if ret < 0 then NO_STREAMS else NO_AUDIO) (Some fc) (- 1)
            [] 0 0 0 0 0 (DoubleConst 0)"
  proof (cases "ret < 0")
    case True
    then have v3: "open_after 3 lib f [] n = open_init\<lparr>l_format_context := Some fc, l_error := NO_STREAMS\<rparr>"
      using e by (simp add: probed_stage [OF assms])
    then have "l_error (open_after 3 lib f [] n) \<noteq> OK" by simp
    then have "Audio_open lib f [] n = session_of (open_after 3 lib f [] n)"
      by (intro open_short_circuit) simp_all
    then show ?thesis using True by (simp add: v3 session_of_def open_init_def)
  next
    case False
    then have v3: "open_after 3 lib f [] n = open_init\<lparr>l_format_context := Some fc, l_error := OK\<rparr>"
      by (simp add: probed_stage [OF assms])
    have v4: "open_after 4 lib f [] n = open_init\<lparr>l_format_context := Some fc, l_error := NO_AUDIO\<rparr>"
      unfolding open_after_4 v3 using e by (simp add: select_stream_def open_init_def)
    then have "l_error (open_after 4 lib f [] n) \<noteq> OK" by simp
    then have "Audio_open lib f [] n = session_of (open_after 4 lib f [] n)"
      by (intro open_short_circuit) simp_all
    then show ?thesis using False by (simp add: v4 session_of_def open_init_def)
  qed
next
  assume "ret < 0 \<and> av_streams fc \<noteq> []"
  then have "open_after 3 lib f [] n = open_init\<lparr>l_format_context := Some fc, l_error := OK\<rparr>"
    by (simp add: probed_stage [OF assms])
  then have "l_error (open_after 3 lib f [] n) \<noteq> NO_STREAMS" by simp
  then have "l_error (open_after 8 lib f [] n) \<noteq> NO_STREAMS"
    unfolding open_after_8 open_after_7 open_after_6 open_after_5 open_after_4
    by (intro check_sample_fmt_not_NO_STREAMS open_decoder_not_NO_STREAMS
        fill_stream_info_not_NO_STREAMS find_decoder_not_NO_STREAMS select_stream_not_NO_STREAMS)
  then show "error (Audio_open lib f [] n) \<noteq> NO_STREAMS"
    by (simp add: Audio_open_8 session_of_def AudioFileImpl_new_def)
qed

theorem open_no_streams_witness:
  "Audio_open (stub_lib empty_file (- 1)) ''empty.bin'' [] 0 =
     AudioFileImpl_new NO_STREAMS (Some empty_file) (- 1) [] 0 0 0 0 0 (DoubleConst 0)
   \<and> error (Audio_open (stub_lib (mp3_file 14112000) (- 1)) ''song.mp3'' [] 0) \<noteq> NO_STREAMS"
proof -
  have a: "avformat_open_input (stub_lib empty_file (- 1)) ''empty.bin'' False = Some empty_file"
    "avformat_find_stream_info (stub_lib empty_file (- 1)) empty_file = (- 1, empty_file)"
    by (simp_all add: stub_lib_def)
  have b: "avformat_open_input (stub_lib (mp3_file 14112000) (- 1)) ''song.mp3'' False
             = Some (mp3_file 14112000)"
    "avformat_find_stream_info (stub_lib (mp3_file 14112000) (- 1)) (mp3_file 14112000)
             = (- 1, mp3_file 14112000)"
    by (simp_all add: stub_lib_def)
  have c: "av_streams empty_file = []" "(- 1 :: int) < 0 \<and> av_streams (mp3_file 14112000) \<noteq> []"
    by (simp_all add: empty_file_def mp3_file_def audio_file_def)
  show ?thesis
    using open_no_streams [OF a, of 0] open_no_streams [OF b, of 0] c by simp
qed

text \<open>
  A container without streams whose probe reports success is rejected as \<open>NO_AUDIO\<close>,
  not as \<open>NO_STREAMS\<close>.
\<close>

theorem open_no_streams_counterexample:
  "error (Audio_open (stub_lib empty_file 0) ''empty.bin'' [] 0) = NO_AUDIO"
  by (simp add: open_eval)

lemma open_decoder_keeps:
  "l_bit_rate (open_decoder lib v) = l_bit_rate v"
  "l_bits_per_sample (open_decoder lib v) = l_bits_per_sample v"
  by (simp_all add: open_decoder_def split: option.splits prod.splits)

lemma check_sample_fmt_keeps:
  "l_bit_rate (check_sample_fmt v) = l_bit_rate v"
  "l_bits_per_sample (check_sample_fmt v) = l_bits_per_sample v"
  by (simp_all add: check_sample_fmt_def split: option.splits)

lemma early_steps_keep:
  "l_bit_rate (find_device lib d v) = l_bit_rate v"
  "l_bits_per_sample (find_device lib d v) = l_bits_per_sample v"
  "l_bit_rate (open_input lib f d v) = l_bit_rate v"
  "l_bits_per_sample (open_input lib f d v) = l_bits_per_sample v"
  "l_bit_rate (probe_streams lib v) = l_bit_rate v"
  "l_bits_per_sample (probe_streams lib v) = l_bits_per_sample v"
  "l_bit_rate (select_stream n v) = l_bit_rate v"
  "l_bits_per_sample (select_stream n v) = l_bits_per_sample v"
  "l_bit_rate (find_decoder lib v) = l_bit_rate v"
  "l_bits_per_sample (find_decoder lib v) = l_bits_per_sample v"
  by (simp_all add: find_device_def open_input_def probe_streams_def select_stream_def
      find_decoder_def split: option.splits prod.splits)

lemma early_bits_zero:
  "l_bit_rate (open_after 5 lib f d n) = 0 \<and> l_bits_per_sample (open_after 5 lib f d n) = 0"
  by (simp add: open_after_unfold early_steps_keep open_init_def)

lemma late_steps_keep_stream:
  "l_audio_stream (fill_stream_info d v) = l_audio_stream v"
  "l_audio_stream (open_decoder lib v) = l_audio_stream v"
  "l_audio_stream (check_sample_fmt v) = l_audio_stream v"
  by (simp_all add: fill_stream_info_def open_decoder_def check_sample_fmt_def Let_def
      split: option.splits prod.splits)

lemma fill_stream_info_exclusive:
  assumes "l_bit_rate v = 0 \<and> l_bits_per_sample v = 0"
  shows "l_bit_rate (fill_stream_info d v) = 0 \<or> l_bits_per_sample (fill_stream_info d v) = 0"
  using assms by (simp add: fill_stream_info_def Let_def split: option.splits)

lemma fill_stream_info_bits:
  assumes "l_error v = OK" "l_format_context v = Some fc" "l_codec v = Some c"
  shows "l_bits_per_sample (fill_stream_info d v) =
           (if sets_both (codec_id (codec (av_streams fc ! nat (l_audio_stream v)))) then 0
            else reported_bits (codec (av_streams fc ! nat (l_audio_stream v))))"
    and "l_bit_rate (fill_stream_info d v) =
           (if l_bits_per_sample (fill_stream_info d v) \<noteq> 0 then 0
            else cc_bit_rate (codec (av_streams fc ! nat (l_audio_stream v))))"
  using assms by (simp_all add: fill_stream_info_def Let_def)

text \<open>
  Claim C9. In every session \<^verbatim>\<open>open\<close> returns, a successfully resolved one in particular,
  at most one of \<open>bit_rate\<close> and \<open>bits_per_sample\<close> is non-zero. For a resolved source
  with the codec context \<open>cc\<close> of the selected stream: when the codec is AAC, Musepack
  SV8, WMA v1 or WMA v2, \<open>bits_per_sample\<close> is 0 and \<open>bit_rate\<close> is the codec's bit rate;
  for any other codec \<open>bits_per_sample\<close> is the raw bits per sample, or the coded ones
  when the raw ones are 0, and \<open>bit_rate\<close> is 0 whenever \<open>bits_per_sample\<close> is not 0 and
  the codec's bit rate otherwise.
\<close>

theorem open_bit_rate_exclusive:
  "(bit_rate (Audio_open lib f d n) = 0 \<or> bits_per_sample (Audio_open lib f d n) = 0)
   \<and> (error (Audio_open lib f d n) = OK \<longrightarrow>
        (\<exists>fc cc. l_format_context (open_after 5 lib f d n) = Some fc
           \<and> cc = codec (av_streams fc ! nat (audio_stream (Audio_open lib f d n)))
           \<and> (codec_id cc = AV_CODEC_ID_AAC \<or> codec_id cc = AV_CODEC_ID_MUSEPACK8 \<or>
               codec_id cc = AV_CODEC_ID_WMAV1 \<or> codec_id cc = AV_CODEC_ID_WMAV2 \<longrightarrow>
                 bits_per_sample (Audio_open lib f d n) = 0
                 \<and> bit_rate (Audio_open lib f d n) = cc_bit_rate cc)
           \<and> (codec_id cc \<noteq> AV_CODEC_ID_AAC \<and> codec_id cc \<noteq> AV_CODEC_ID_MUSEPACK8 \<and>
               codec_id cc \<noteq> AV_CODEC_ID_WMAV1 \<and> codec_id cc \<noteq> AV_CODEC_ID_WMAV2 \<longrightarrow>
                 bits_per_sample (Audio_open lib f d n) =
                   (if bits_per_raw_sample cc = 0 then bits_per_coded_sample cc
                    else bits_per_raw_sample cc)
                 \<and> bit_rate (Audio_open lib f d n) =
                     (if bits_per_sample (Audio_open lib f d n) \<noteq> 0 then 0
                      else cc_bit_rate cc))))"
proof (intro conjI impI)
  let ?v5 = "open_after 5 lib f d n" and ?v6 = "open_after 6 lib f d n"
  let ?s = "Audio_open lib f d n"
  have s: "bit_rate ?s = l_bit_rate ?v6" "bits_per_sample ?s = l_bits_per_sample ?v6"
    by (simp_all add: Audio_open_8 session_of_def AudioFileImpl_new_def open_after_8 open_after_7
        open_decoder_keeps check_sample_fmt_keeps)
  have "l_bit_rate ?v6 = 0 \<or> l_bits_per_sample ?v6 = 0"
    unfolding open_after_6 using early_bits_zero by (rule fill_stream_info_exclusive)
  then show "bit_rate ?s = 0 \<or> bits_per_sample ?s = 0"
    by (simp add: s)
  assume "error ?s = OK"
  then have "l_error (open_after 8 lib f d n) = OK"
    by (simp add: Audio_open_8 session_of_def AudioFileImpl_new_def)
  then have "l_error (open_after 7 lib f d n) = OK"
    unfolding open_after_8 by (rule check_sample_fmt_OK)
  then have "l_error ?v6 = OK"
    unfolding open_after_7 by (rule open_decoder_OK)
  then have e5: "l_error ?v5 = OK"
    unfolding open_after_6 by (rule fill_stream_info_OK)
  then obtain fc c where fc: "l_format_context ?v5 = Some fc" and c: "l_codec ?v5 = Some c"
    using stage5_ok by blast
  have a: "audio_stream ?s = l_audio_stream ?v5"
    by (simp add: Audio_open_8 session_of_def AudioFileImpl_new_def open_after_8 open_after_7
        open_after_6 late_steps_keep_stream)
  let ?cc = "codec (av_streams fc ! nat (audio_stream ?s))"
  note bits = fill_stream_info_bits [OF e5 fc c, of d]
  have b: "bits_per_sample ?s = (if sets_both (codec_id ?cc) then 0 else reported_bits ?cc)"
    using bits(1) by (simp add: s a open_after_6)
  have r: "bit_rate ?s = (if bits_per_sample ?s \<noteq> 0 then 0 else cc_bit_rate ?cc)"
    using bits(2) by (simp add: s a open_after_6)
  have fam: "(codec_id ?cc = AV_CODEC_ID_AAC \<or> codec_id ?cc = AV_CODEC_ID_MUSEPACK8 \<or>
               codec_id ?cc = AV_CODEC_ID_WMAV1 \<or> codec_id ?cc = AV_CODEC_ID_WMAV2 \<longrightarrow>
                 bits_per_sample ?s = 0 \<and> bit_rate ?s = cc_bit_rate ?cc)"
    using b r by (auto simp: sets_both_def)
  have oth: "(codec_id ?cc \<noteq> AV_CODEC_ID_AAC \<and> codec_id ?cc \<noteq> AV_CODEC_ID_MUSEPACK8 \<and>
               codec_id ?cc \<noteq> AV_CODEC_ID_WMAV1 \<and> codec_id ?cc \<noteq> AV_CODEC_ID_WMAV2 \<longrightarrow>
                 bits_per_sample ?s =
                   (if bits_per_raw_sample ?cc = 0 then bits_per_coded_sample ?cc
                    else bits_per_raw_sample ?cc)
                 \<and> bit_rate ?s = (if bits_per_sample ?s \<noteq> 0 then 0 else cc_bit_rate ?cc))"
    using b r by (auto simp: sets_both_def reported_bits_def)
  show "\<exists>fc cc. l_format_context ?v5 = Some fc
           \<and> cc = codec (av_streams fc ! nat (audio_stream ?s))
           \<and> (codec_id cc = AV_CODEC_ID_AAC \<or> codec_id cc = AV_CODEC_ID_MUSEPACK8 \<or>
               codec_id cc = AV_CODEC_ID_WMAV1 \<or> codec_id cc = AV_CODEC_ID_WMAV2 \<longrightarrow>
                 bits_per_sample ?s = 0 \<and> bit_rate ?s = cc_bit_rate cc)
           \<and> (codec_id cc \<noteq> AV_CODEC_ID_AAC \<and> codec_id cc \<noteq> AV_CODEC_ID_MUSEPACK8 \<and>
               codec_id cc \<noteq> AV_CODEC_ID_WMAV1 \<and> codec_id cc \<noteq> AV_CODEC_ID_WMAV2 \<longrightarrow>
                 bits_per_sample ?s =
                   (if bits_per_raw_sample cc = 0 then bits_per_coded_sample cc
                    else bits_per_raw_sample cc)
                 \<and> bit_rate ?s = (if bits_per_sample ?s \<noteq> 0 then 0 else cc_bit_rate cc))"
    using fc fam oth by blast
qed

theorem open_bit_rate_exclusive_witness:
  "error (Audio_open (stub_lib (audio_file aac_context 14112000) 0) ''song.m4a'' [] 0) = OK
   \<and> bits_per_sample (Audio_open (stub_lib (audio_file aac_context 14112000) 0) ''song.m4a'' [] 0) = 0
   \<and> bit_rate (Audio_open (stub_lib (audio_file aac_context 14112000) 0) ''song.m4a'' [] 0) = 256000
   \<and> error (Audio_open (stub_lib (audio_file flac_context 14112000) 0) ''song.flac'' [] 0) = OK
   \<and> bits_per_sample (Audio_open (stub_lib (audio_file flac_context 14112000) 0) ''song.flac'' [] 0) = 16
   \<and> bit_rate (Audio_open (stub_lib (audio_file flac_context 14112000) 0) ''song.flac'' [] 0) = 0"
proof -
  let ?la = "stub_lib (audio_file aac_context 14112000) 0"
  let ?a = "Audio_open ?la ''song.m4a'' [] 0"
  let ?lf = "stub_lib (audio_file flac_context 14112000) 0"
  let ?f = "Audio_open ?lf ''song.flac'' [] 0"
  have c: "codec (av_streams (audio_file cx 14112000) ! 0) = cx" for cx
    by (simp add: audio_file_def)
  have ok_a: "error ?a = OK"
    by (simp add: open_eval aac_context_def AV_NOPTS_VALUE_def INT64_MIN_def)
  have v5_a: "l_format_context (open_after 5 ?la ''song.m4a'' [] 0)
              = Some (audio_file aac_context 14112000)"
    by (simp add: open_eval aac_context_def)
  have st_a: "audio_stream ?a = 0"
    by (simp add: open_eval aac_context_def AV_NOPTS_VALUE_def INT64_MIN_def)
  from open_bit_rate_exclusive [of ?la "''song.m4a''" "[]" 0] ok_a
  obtain fc where fc: "l_format_context (open_after 5 ?la ''song.m4a'' [] 0) = Some fc"
    and fam: "codec_id (codec (av_streams fc ! nat (audio_stream ?a))) = AV_CODEC_ID_AAC \<or>
              codec_id (codec (av_streams fc ! nat (audio_stream ?a))) = AV_CODEC_ID_MUSEPACK8 \<or>
              codec_id (codec (av_streams fc ! nat (audio_stream ?a))) = AV_CODEC_ID_WMAV1 \<or>
              codec_id (codec (av_streams fc ! nat (audio_stream ?a))) = AV_CODEC_ID_WMAV2 \<longrightarrow>
                bits_per_sample ?a = 0
                \<and> bit_rate ?a = cc_bit_rate (codec (av_streams fc ! nat (audio_stream ?a)))"
    by blast
  have fc_a: "fc = audio_file aac_context 14112000" using fc v5_a by simp
  from fam have "codec_id aac_context = AV_CODEC_ID_AAC \<or>
              codec_id aac_context = AV_CODEC_ID_MUSEPACK8 \<or>
              codec_id aac_context = AV_CODEC_ID_WMAV1 \<or>
              codec_id aac_context = AV_CODEC_ID_WMAV2 \<longrightarrow>
                bits_per_sample ?a = 0 \<and> bit_rate ?a = cc_bit_rate aac_context"
    by (simp only: fc_a st_a nat_0 c)
  then have res_a: "bits_per_sample ?a = 0 \<and> bit_rate ?a = 256000"
    by (simp add: aac_context_def)
  have ok_f: "error ?f = OK"
    by (simp add: open_eval AV_NOPTS_VALUE_def INT64_MIN_def)
  have v5_f: "l_format_context (open_after 5 ?lf ''song.flac'' [] 0)
              = Some (audio_file flac_context 14112000)"
    by (simp add: open_eval)
  have st_f: "audio_stream ?f = 0"
    by (simp add: open_eval AV_NOPTS_VALUE_def INT64_MIN_def)
  from open_bit_rate_exclusive [of ?lf "''song.flac''" "[]" 0] ok_f
  obtain fc' where fc': "l_format_context (open_after 5 ?lf ''song.flac'' [] 0) = Some fc'"
    and oth: "codec_id (codec (av_streams fc' ! nat (audio_stream ?f))) \<noteq> AV_CODEC_ID_AAC \<and>
              codec_id (codec (av_streams fc' ! nat (audio_stream ?f))) \<noteq> AV_CODEC_ID_MUSEPACK8 \<and>
              codec_id (codec (av_streams fc' ! nat (audio_stream ?f))) \<noteq> AV_CODEC_ID_WMAV1 \<and>
              codec_id (codec (av_streams fc' ! nat (audio_stream ?f))) \<noteq> AV_CODEC_ID_WMAV2 \<longrightarrow>
                bits_per_sample ?f =
                  (if bits_per_raw_sample (codec (av_streams fc' ! nat (audio_stream ?f))) = 0
                   then bits_per_coded_sample (codec (av_streams fc' ! nat (audio_stream ?f)))
                   else bits_per_raw_sample (codec (av_streams fc' ! nat (audio_stream ?f))))
                \<and> bit_rate ?f =
                    (if bits_per_sample ?f \<noteq> 0 then 0
                     else cc_bit_rate (codec (av_streams fc' ! nat (audio_stream ?f))))"
    by blast
  have fc_f: "fc' = audio_file flac_context 14112000" using fc' v5_f by simp
  from oth have "codec_id flac_context \<noteq> AV_CODEC_ID_AAC \<and>
              codec_id flac_context \<noteq> AV_CODEC_ID_MUSEPACK8 \<and>
              codec_id flac_context \<noteq> AV_CODEC_ID_WMAV1 \<and>
              codec_id flac_context \<noteq> AV_CODEC_ID_WMAV2 \<longrightarrow>
                bits_per_sample ?f =
                  (if bits_per_raw_sample flac_context = 0
                   then bits_per_coded_sample flac_context
                   else bits_per_raw_sample flac_context)
                \<and> bit_rate ?f =
                    (if bits_per_sample ?f \<noteq> 0 then 0 else cc_bit_rate flac_context)"
    by (simp only: fc_f st_f nat_0 c)
  then have res_f: "bits_per_sample ?f = 16 \<and> bit_rate ?f = 0"
    by (simp add: flac_context_def)
  show ?thesis using ok_a res_a ok_f res_f by blast
qed

lemma find_decoder_not_NO_AUDIO:
  "l_error v \<noteq> NO_AUDIO \<Longrightarrow> l_error (find_decoder lib v) \<noteq> NO_AUDIO"
  by (auto simp: find_decoder_def split: option.splits)

lemma fill_stream_info_not_NO_AUDIO:
  "l_error v \<noteq> NO_AUDIO \<Longrightarrow> l_error (fill_stream_info d v) \<noteq> NO_AUDIO"
  by (auto simp: fill_stream_info_def Let_def split: option.splits)

lemma open_decoder_not_NO_AUDIO:
  "l_error v \<noteq> NO_AUDIO \<Longrightarrow> l_error (open_decoder lib v) \<noteq> NO_AUDIO"
  by (auto simp: open_decoder_def split: option.splits prod.splits)

lemma check_sample_fmt_not_NO_AUDIO:
  "l_error v \<noteq> NO_AUDIO \<Longrightarrow> l_error (check_sample_fmt v) \<noteq> NO_AUDIO"
  by (auto simp: check_sample_fmt_def split: option.splits)

lemma select_stream_result:
  assumes "l_error v = OK" "l_format_context v = Some fc"
  shows "(n < 0 \<or> audio_count (av_streams fc) \<le> n \<longrightarrow>
            select_stream n v = v\<lparr>l_audio_stream := - 1,
                                   l_streams := audio_count (av_streams fc),
                                   l_error := NO_AUDIO\<rparr>)
       \<and> (0 \<le> n \<and> n < audio_count (av_streams fc) \<longrightarrow> l_error (select_stream n v) = OK)"
proof -
  obtain a m where sc: "scan_streams n (av_streams fc) 0 (- 1, 0) = (a, m)"
    by (cases "scan_streams n (av_streams fc) 0 (- 1, 0)")
  have m: "m = audio_count (av_streams fc)"
    using scan_streams_count [of n "av_streams fc" 0 "- 1" 0] sc by simp
  show ?thesis
  proof (intro conjI impI)
    assume "n < 0 \<or> audio_count (av_streams fc) \<le> n"
    then have "n < 0 \<or> 0 + audio_count (av_streams fc) \<le> n" by simp
    then have "fst (scan_streams n (av_streams fc) 0 (- 1, 0)) = - 1" by (rule scan_streams_miss)
    then have "a = - 1" using sc by simp
    then show "select_stream n v = v\<lparr>l_audio_stream := - 1,
                                   l_streams := audio_count (av_streams fc),
                                   l_error := NO_AUDIO\<rparr>"
      using assms sc m by (simp add: select_stream_def)
  next
    assume "0 \<le> n \<and> n < audio_count (av_streams fc)"
    then have "0 \<le> n" "n < 0 + audio_count (av_streams fc)" by simp_all
    then have "0 \<le> fst (scan_streams n (av_streams fc) 0 (- 1, 0))"
      using scan_streams_hit [of 0 n "av_streams fc" 0 "- 1"] by simp
    then have "a \<noteq> - 1" using sc by simp
    then show "l_error (select_stream n v) = OK"
      using assms sc by (simp add: select_stream_def)
  qed
qed

text \<open>
  Claim C10. For every container that opened and passed the probe, a negative stream
  index makes resolution fail with \<open>NO_AUDIO\<close>, exactly as an index that is not below
  the number of audio streams does; \<open>audio_stream\<close> stays \<open>- 1\<close> and \<open>streams\<close> counts the
  audio streams. An index inside the range never gives \<open>NO_AUDIO\<close>, so no negative index
  is taken for a valid one.
\<close>

theorem open_negative_stream:
  assumes "l_error (open_after 3 lib f d n) = OK"
    and "l_format_context (open_after 3 lib f d n) = Some fc"
  shows "(n < 0 \<or> audio_count (av_streams fc) \<le> n \<longrightarrow>
            error (Audio_open lib f d n) = NO_AUDIO
            \<and> audio_stream (Audio_open lib f d n) = - 1
            \<and> streams (Audio_open lib f d n) = audio_count (av_streams fc))
       \<and> (0 \<le> n \<and> n < audio_count (av_streams fc) \<longrightarrow>
            error (Audio_open lib f d n) \<noteq> NO_AUDIO)"
proof (intro conjI impI)
  let ?v3 = "open_after 3 lib f d n"
  note sel = select_stream_result [OF assms, of n]
  {
    assume "n < 0 \<or> audio_count (av_streams fc) \<le> n"
    then have v4: "open_after 4 lib f d n =
        ?v3\<lparr>l_audio_stream := - 1, l_streams := audio_count (av_streams fc), l_error := NO_AUDIO\<rparr>"
      using sel by (simp add: open_after_4)
    then have "l_error (open_after 4 lib f d n) \<noteq> OK" by simp
    then have "Audio_open lib f d n = session_of (open_after 4 lib f d n)"
      by (intro open_short_circuit) simp_all
    then have "error (Audio_open lib f d n) = NO_AUDIO
            \<and> audio_stream (Audio_open lib f d n) = - 1
            \<and> streams (Audio_open lib f d n) = audio_count (av_streams fc)"
      by (simp add: v4 session_of_def AudioFileImpl_new_def)
  }
  note miss = this
  show "error (Audio_open lib f d n) = NO_AUDIO"
    if "n < 0 \<or> audio_count (av_streams fc) \<le> n" using miss that by blast
  show "audio_stream (Audio_open lib f d n) = - 1"
    if "n < 0 \<or> audio_count (av_streams fc) \<le> n" using miss that by blast
  show "streams (Audio_open lib f d n) = audio_count (av_streams fc)"
    if "n < 0 \<or> audio_count (av_streams fc) \<le> n" using miss that by blast
  assume "0 \<le> n \<and> n < audio_count (av_streams fc)"
  then have "l_error (open_after 4 lib f d n) = OK"
    using sel by (simp add: open_after_4)
  then have "l_error (open_after 4 lib f d n) \<noteq> NO_AUDIO" by simp
  then have "l_error (open_after 8 lib f d n) \<noteq> NO_AUDIO"
    unfolding open_after_8 open_after_7 open_after_6 open_after_5
    by (intro check_sample_fmt_not_NO_AUDIO open_decoder_not_NO_AUDIO
        fill_stream_info_not_NO_AUDIO find_decoder_not_NO_AUDIO)
  then show "error (Audio_open lib f d n) \<noteq> NO_AUDIO"
    by (simp add: Audio_open_8 session_of_def AudioFileImpl_new_def)
qed

theorem open_negative_stream_witness:
  "error (Audio_open (stub_lib (mp3_file 14112000) 0) ''song.mp3'' [] (- 1)) = NO_AUDIO
   \<and> audio_stream (Audio_open (stub_lib (mp3_file 14112000) 0) ''song.mp3'' [] (- 1)) = - 1
   \<and> streams (Audio_open (stub_lib (mp3_file 14112000) 0) ''song.mp3'' [] (- 1)) = 1
   \<and> error (Audio_open (stub_lib (mp3_file 14112000) 0) ''song.mp3'' [] 1) = NO_AUDIO
   \<and> error (Audio_open (stub_lib (mp3_file 14112000) 0) ''song.mp3'' [] 0) \<noteq> NO_AUDIO"
proof -
  let ?lib = "stub_lib (mp3_file 14112000) 0"
  have h: "l_error (open_after 3 ?lib ''song.mp3'' [] n) = OK"
    "l_format_context (open_after 3 ?lib ''song.mp3'' [] n) = Some (mp3_file 14112000)" for n
    by (simp_all add: open_after_unfold find_device_def open_input_def probe_streams_def
        open_init_def stub_lib_def)
  have c: "audio_count (av_streams (mp3_file 14112000)) = 1"
    by (simp add: audio_count_def mp3_file_def audio_file_def mp3_context_def)
  show ?thesis
    using open_negative_stream [OF h, of "- 1"] open_negative_stream [OF h, of 1]
      open_negative_stream [OF h, of 0]
    by (simp add: c)
qed

section \<open>Properties of channel selection and of the reader\<close>

lemma stereo_session_eq:
  "stereo_session =
     AudioFileImpl_new OK (Some (mp3_file 14112000)) 0 ''MP3 (MPEG audio layer 3)''
       128000 44100 0 1 2 (StreamSeconds 14112000 1 14112000)"
  by (simp add: stereo_session_def open_eval AV_NOPTS_VALUE_def INT64_MIN_def)

text \<open>
  The source of a sample: a planar layout takes it from the selected channel's plane at
  the sample index; a packed layout takes it from plane 0 at \<open>sample * channels\<close>,
  whatever the selected channel is.
\<close>

lemma sample_source_planar:
  "sample_source True (Some c) chans sample = Inr (c, sample)"
  by (simp add: sample_source_def)

lemma sample_source_packed:
  "sample_source False chan chans sample = Inr (0, sample * chans)"
  by (simp add: sample_source_def)

text \<open>
  Claim C2 at a packed frame. The session has two channels and channel 1 selected; the
  frame holds the interleaved samples 10, 20, 30, 40. Line 313 computes the offset
  \<open>sample * channels\<close> without adding the channel, so the buffer receives the samples at
  offsets 0 and 2 (channel 0), where the claim's offset
  \<open>sample * channelCount + channel\<close> names the samples 20 and 40 at offsets 1 and 3.
\<close>

theorem deliver_packed_reads_first_channel:
  "deliver packed_session =
     Inr (2, packed_session\<lparr>buffer := [IntOverFloat 10 32767, IntOverFloat 30 32767],
                             buffer_len := 2\<rparr>)"
  by (simp add: deliver_def Let_def packed_session_def packed_frame_def stereo_session_eq
      AudioFileImpl_new_def numeral_2_eq_2 sample_source_def av_sample_fmt_is_planar_def
      sample_value_def convert_def fetch_raw_def)

lemma read_audio_packet_skip:
  assumes "\<forall>q \<in> set skipped. stream_index q \<noteq> a" "stream_index p = a"
  shows "read_audio_packet a (skipped @ p # rest) = (0, p, rest)"
  using assms by (induction skipped) simp_all

lemma read_loop_break:
  assumes "pkt_size (packet s) > 0" "decode_step dec s = Inr (Fetch, s1)"
    and "fetch_packet s1 = Inr (res, s2)" "0 \<le> res"
  shows "read_loop dec s = read_loop dec s2"
  using assms by (subst read_loop.simps) simp

lemma read_loop_return:
  assumes "pkt_size (packet s) > 0" "decode_step dec s = Inr (Returned n, s')"
  shows "read_loop dec s = Some (Inr (n, s'))"
  using assms by (subst read_loop.simps) simp

lemma deliver_count: "deliver s = Inr (n, s') \<Longrightarrow> n = nb_samples (frame s)"
  by (auto simp: deliver_def Let_def split: sum.splits if_splits)

text \<open>
  Claim C7. The session has no error and its packet has bytes left; the decoder reports
  an error for it (\<open>len < 0\<close>). The container still has packets of other streams
  (\<open>skipped\<close>) and then a packet \<open>p\<close> of the selected stream, which the decoder turns
  into a complete frame \<open>fr\<close>. Then that one call of \<^verbatim>\<open>read\<close> drops the failed packet
  without a second decode of it, passes over the other streams' packets, decodes \<open>p\<close>
  and returns the sample count of \<open>fr\<close> with the frame delivered into the buffer; it
  returns neither \<open>- 1\<close> nor the end-of-stream 0.
\<close>

theorem read_skips_bad_packet:
  assumes "error s = OK"
    and "format_context s = Some fc"
    and "0 \<le> audio_stream s" "audio_stream s < int (length (av_streams fc))"
    and "pkt_size (packet s) > 0" "pkt_data (packet s) \<noteq> None"
    and "dec (codec (av_streams fc ! nat (audio_stream s))) (packet s) = (len, got, cc1)"
    and "len < 0"
    and "demux fc = skipped @ p # rest"
    and "\<forall>q \<in> set skipped. stream_index q \<noteq> audio_stream s"
    and "stream_index p = audio_stream s" "pkt_size p > 0"
    and "dec cc1 p = (len2, Some fr, cc2)" "0 \<le> len2"
    and "deliver
           (s\<lparr>format_context :=
                 Some (set_codec ((set_codec fc (nat (audio_stream s)) cc1)\<lparr>demux := rest\<rparr>)
                         (nat (audio_stream s)) cc2),
               frame := fr, packet := advance p len2, offset := len2\<rparr>) = Inr (n, s')"
  shows "read dec s = Some (Inr (n, s')) \<and> n = nb_samples fr"
proof -
  let ?a = "nat (audio_stream s)"
  let ?fc1 = "set_codec fc ?a cc1"
  let ?s1 = "s\<lparr>format_context := Some ?fc1,
                frame := (case got of None \<Rightarrow> blank_frame | Some fr \<Rightarrow> fr)\<rparr>"
  let ?s2 = "?s1\<lparr>packet := p, offset := 0, format_context := Some (?fc1\<lparr>demux := rest\<rparr>)\<rparr>"
  let ?s3 = "s\<lparr>format_context := Some (set_codec (?fc1\<lparr>demux := rest\<rparr>) ?a cc2),
               frame := fr, packet := advance p len2, offset := len2\<rparr>"
  have a: "?a < length (av_streams fc)" using assms(3,4) by simp
  have d1: "decode_step dec s = Inr (Fetch, ?s1)"
    using assms(2,3,4,7,8) by (simp add: decode_step_def codec_context_of_def Let_def)
  have dm: "demux ?fc1 = skipped @ p # rest" using assms(9) by (simp add: set_codec_def)
  have f1: "fetch_packet ?s1 = Inr (0, ?s2)"
    using assms(6) read_audio_packet_skip [OF assms(10,11), of rest]
    by (simp add: fetch_packet_def Let_def dm)
  have l1: "read_loop dec s = read_loop dec ?s2"
    using assms(5) d1 f1 by (rule read_loop_break) simp
  have cc: "codec (av_streams (?fc1\<lparr>demux := rest\<rparr>) ! ?a) = cc1"
    using a by (simp add: set_codec_def)
  have len: "?a < length (av_streams (?fc1\<lparr>demux := rest\<rparr>))"
    using a by (simp add: set_codec_def)
  have s3: "?s2\<lparr>format_context := Some (set_codec (?fc1\<lparr>demux := rest\<rparr>) ?a cc2),
               frame := fr, packet := advance p len2, offset := 0 + len2\<rparr> = ?s3"
    by simp
  have d2: "decode_step dec ?s2 = Inr (Returned n, s')"
    using assms(3,13,14,15) len cc s3
    by (simp add: decode_step_def codec_context_of_def Let_def)
  have "read_loop dec ?s2 = Some (Inr (n, s'))"
    using assms(12) d2 by (intro read_loop_return) simp_all
  then have "read dec s = Some (Inr (n, s'))"
    using assms(1) l1 by (simp add: read_def)
  moreover have "n = nb_samples fr" using deliver_count [OF assms(15)] by simp
  ultimately show ?thesis by simp
qed


lemmas read_eval = stereo_session_eq AudioFileImpl_new_def mid_stream_session_def
  mid_stream_file_def mp3_file_def audio_file_def mp3_context_def corrupt_packet_def
  cover_packet_def sound_packet_def stub_decoder_def planar_frame_def blank_packet_def
  blank_frame_def set_codec_def advance_def

theorem read_skips_bad_packet_witness:
  "read stub_decoder mid_stream_session =
     Some (Inr (2, mid_stream_session
                     \<lparr>format_context := Some (mid_stream_file\<lparr>demux := []\<rparr>),
                      frame := planar_frame 7, packet := advance sound_packet 418,
                      offset := 418,
                      buffer := [IntOverFloat 9 32767, IntOverFloat 10 32767],
                      buffer_len := 2\<rparr>))"
proof -
  let ?s = mid_stream_session
  let ?s' = "?s\<lparr>format_context := Some (mid_stream_file\<lparr>demux := []\<rparr>),
                frame := planar_frame 7, packet := advance sound_packet 418,
                offset := 418,
                buffer := [IntOverFloat 9 32767, IntOverFloat 10 32767],
                buffer_len := 2\<rparr>"
  have h1: "error ?s = OK" by (simp add: read_eval)
  have h2: "format_context ?s = Some mid_stream_file" by (simp add: mid_stream_session_def)
  have h3: "0 \<le> audio_stream ?s" by (simp add: read_eval)
  have h4: "audio_stream ?s < int (length (av_streams mid_stream_file))" by (simp add: read_eval)
  have h5: "pkt_size (packet ?s) > 0" by (simp add: read_eval)
  have h6: "pkt_data (packet ?s) \<noteq> None" by (simp add: read_eval)
  have h7: "stub_decoder (codec (av_streams mid_stream_file ! nat (audio_stream ?s))) (packet ?s)
              = (- 1, None, mp3_context)"
    by (simp add: read_eval)
  have h8: "(- 1 :: int) < 0" by simp
  have h9: "demux mid_stream_file = [cover_packet] @ sound_packet # []"
    by (simp add: mid_stream_file_def)
  have h10: "\<forall>q \<in> set [cover_packet]. stream_index q \<noteq> audio_stream ?s"
    by (simp add: read_eval)
  have h11: "stream_index sound_packet = audio_stream ?s" by (simp add: read_eval)
  have h12: "pkt_size sound_packet > 0" by (simp add: sound_packet_def)
  have h13: "stub_decoder mp3_context sound_packet = (418, Some (planar_frame 7), mp3_context)"
    by (simp add: stub_decoder_def sound_packet_def)
  have h14: "(0::int) \<le> 418" by simp
  have h15: "deliver
           (?s\<lparr>format_context :=
                 Some (set_codec ((set_codec mid_stream_file (nat (audio_stream ?s)) mp3_context)
                                     \<lparr>demux := []\<rparr>)
                         (nat (audio_stream ?s)) mp3_context),
               frame := planar_frame 7, packet := advance sound_packet 418, offset := 418\<rparr>)
          = Inr (2, ?s')"
    by (simp add: deliver_def Let_def read_eval numeral_2_eq_2 sample_source_def
        av_sample_fmt_is_planar_def sample_value_def convert_def fetch_raw_def)
  from read_skips_bad_packet [OF h1 h2 h3 h4 h5 h6 h7 h8 h9 h10 h11 h12 h13 h14 h15]
  show ?thesis by simp
qed

lemma ms_session_eq:
  "ms_session =
     AudioFileImpl_new OK (Some ms_file) 0 ''MP3 (MPEG audio layer 3)''
       128000 44100 0 1 2 (StreamSeconds 4007 1 1000)"
  by (simp add: ms_session_def ms_file_def open_eval AV_NOPTS_VALUE_def INT64_MIN_def)

lemma start_in_range:
  assumes "0 \<le> chan" "chan < channels s" "format_context s = Some fc"
    and "0 \<le> audio_stream s" "audio_stream s < int (length (av_streams fc))"
    and "duration_ticks (duration s)
           (time_base_den (av_streams fc ! nat (audio_stream s)))
           (time_base_num (av_streams fc ! nat (audio_stream s))) = Inr ticks"
    and "plan ticks (sample_rate s)
           (time_base_num (av_streams fc ! nat (audio_stream s)))
           (time_base_den (av_streams fc ! nat (audio_stream s))) samples = Inr p"
  shows "start ndebug chan samples s = Inr (s\<lparr>channel := Some chan, interval_plan := p\<rparr>)"
  using assms by (simp add: start_def Let_def)

text \<open>
  Claim C1, as the code has it. The tick count of the plan is the one line 265 computes:
  the \<^verbatim>\<open>double\<close> product \<open>duration * tb_den / tb_num\<close> with its fraction dropped, not
  the rounded count of section 4.4. For a valid input (a channel in range, an open
  container with its selected stream, a cast that has a value, non-negative tick count,
  sample rate and time-base numerator, positive denominator, at least one interval,
  \<^verbatim>\<open>int\<close> members in 32-bit range and \<open>ticks * rate\<close> within \<^verbatim>\<open>int64_t\<close>) \<^verbatim>\<open>start\<close> stores
  the plan with \<open>frames_per_interval = floor (ticks * rate / error_base)\<close>,
  \<open>error_per_interval = (ticks * rate) mod error_base\<close> and
  \<open>error_base = samples * tb_den\<close>, and the frames consumed over all \<open>samples\<close>
  intervals by the accumulation starting at 0 add up to exactly
  \<open>floor (ticks * rate / tb_den)\<close>.
\<close>

theorem start_bresenham_total:
  assumes "0 \<le> chan" "chan < channels s" "format_context s = Some fc"
    and "0 \<le> audio_stream s" "audio_stream s < int (length (av_streams fc))"
    and "st = av_streams fc ! nat (audio_stream s)"
    and "duration_ticks (duration s) (time_base_den st) (time_base_num st) = Inr ticks"
    and "0 \<le> ticks" "0 \<le> sample_rate s" "0 \<le> time_base_num st" "0 < time_base_den st"
    and "1 \<le> samples"
    and "is_int32 (sample_rate s)" "is_int32 (time_base_num st)" "is_int32 (time_base_den st)"
    and "is_int32 samples"
    and "is_int64 (ticks * (sample_rate s * time_base_num st))"
  shows "start ndebug chan samples s =
           Inr (s\<lparr>channel := Some chan,
                  interval_plan :=
                    \<lparr>frames_per_interval =
                       (ticks * (sample_rate s * time_base_num st)) div (samples * time_base_den st),
                     error_per_interval =
                       (ticks * (sample_rate s * time_base_num st)) mod (samples * time_base_den st),
                     error_base = samples * time_base_den st\<rparr>\<rparr>)
         \<and> bresenham
              \<lparr>frames_per_interval =
                 (ticks * (sample_rate s * time_base_num st)) div (samples * time_base_den st),
               error_per_interval =
                 (ticks * (sample_rate s * time_base_num st)) mod (samples * time_base_den st),
               error_base = samples * time_base_den st\<rparr>
              (nat samples) 0
             = (ticks * (sample_rate s * time_base_num st)) div time_base_den st"
proof -
  note pt = plan_total [OF assms(8,9,10,11,12,13,14,15,16,17)]
  have "start ndebug chan samples s =
           Inr (s\<lparr>channel := Some chan,
                  interval_plan :=
                    \<lparr>frames_per_interval =
                       (ticks * (sample_rate s * time_base_num st)) div (samples * time_base_den st),
                     error_per_interval =
                       (ticks * (sample_rate s * time_base_num st)) mod (samples * time_base_den st),
                     error_base = samples * time_base_den st\<rparr>\<rparr>)"
    using assms(1,2,3,4,5) assms(7) [unfolded assms(6)] pt [THEN conjunct1, unfolded assms(6)]
    unfolding assms(6) by (rule start_in_range)
  then show ?thesis using pt by simp
qed

theorem start_bresenham_total_witness:
  "start True 1 9 ms_session =
     Inr (ms_session\<lparr>channel := Some 1,
            interval_plan := \<lparr>frames_per_interval = 19629, error_per_interval = 3600,
                              error_base = 9000\<rparr>\<rparr>)
   \<and> bresenham \<lparr>frames_per_interval = 19629, error_per_interval = 3600, error_base = 9000\<rparr>
        9 0 = 176664"
proof -
  let ?st = "\<lparr>codec = mp3_context, st_duration = 4007, time_base_num = 1, time_base_den = 1000\<rparr>"
  have t: "duration_ticks (StreamSeconds 4007 1 1000) 1000 1 = Inr 4006" by code_simp
  have h1: "(0::int) \<le> 1" "1 < channels ms_session" "format_context ms_session = Some ms_file"
    "0 \<le> audio_stream ms_session" "audio_stream ms_session < int (length (av_streams ms_file))"
    "?st = av_streams ms_file ! nat (audio_stream ms_session)"
    by (simp_all add: ms_session_eq AudioFileImpl_new_def ms_file_def)
  have h2: "duration_ticks (duration ms_session) (time_base_den ?st) (time_base_num ?st) = Inr 4006"
    using t by (simp add: ms_session_eq AudioFileImpl_new_def)
  have h3: "(0::int) \<le> 4006" "0 \<le> sample_rate ms_session" "0 \<le> time_base_num ?st"
    "0 < time_base_den ?st" "(1::int) \<le> 9"
    "is_int32 (sample_rate ms_session)" "is_int32 (time_base_num ?st)"
    "is_int32 (time_base_den ?st)" "is_int32 9"
    "is_int64 (4006 * (sample_rate ms_session * time_base_num ?st))"
    by (simp_all add: ms_session_eq AudioFileImpl_new_def is_int32_def is_int64_def
        INT32_MAX_def INT64_MIN_def INT64_MAX_def)
  from start_bresenham_total [OF h1 h2 h3, of True]
  show ?thesis by (simp add: ms_session_eq AudioFileImpl_new_def)
qed

text \<open>
  A stream of 4007 ticks of 1/1000 s at 44100 Hz, seven intervals. The duration is the
  \<^verbatim>\<open>double\<close> nearest to 4.007; multiplied by 1000 it is just below 4007, and the cast
  gives 4006 ticks. The plan and its accumulation give 176664 frames, where the rounded
  tick count 4007 of section 4.4 gives \<open>floor (4007 * 44100 / 1000) = 176708\<close>.
\<close>

theorem start_bresenham_total_counterexample:
  "start True 0 7 ms_session =
     Inr (ms_session\<lparr>channel := Some 0,
            interval_plan := \<lparr>frames_per_interval = 25237, error_per_interval = 5600,
                              error_base = 7000\<rparr>\<rparr>)
   \<and> bresenham \<lparr>frames_per_interval = 25237, error_per_interval = 5600, error_base = 7000\<rparr>
        7 0 = 176664
   \<and> spec_duration_ticks (duration ms_session) 1000 1 = Some 4007
   \<and> (4007 * (44100 * 1)) div 1000 = (176708 :: int)"
proof -
  have t: "duration_ticks (StreamSeconds 4007 1 1000) 1000 1 = Inr 4006" by code_simp
  have p: "plan 4006 44100 1 1000 7 =
      Inr \<lparr>frames_per_interval = 25237, error_per_interval = 5600, error_base = 7000\<rparr>"
    by (simp add: plan_def Let_def wrap64_def av_rescale_rnd_down_def is_int64_def
        INT64_MIN_def INT64_MAX_def c_rem_def)
  have a: "start True 0 7 ms_session =
     Inr (ms_session\<lparr>channel := Some 0,
            interval_plan := \<lparr>frames_per_interval = 25237, error_per_interval = 5600,
                              error_base = 7000\<rparr>\<rparr>)"
    by (simp add: start_def Let_def ms_session_eq AudioFileImpl_new_def ms_file_def t p)
  have b: "bresenham \<lparr>frames_per_interval = 25237, error_per_interval = 5600, error_base = 7000\<rparr>
        7 0 = 176664"
    by code_simp
  have c: "spec_duration_ticks (StreamSeconds 4007 1 1000) 1000 1 = Some 4007" by code_simp
  show ?thesis using a b c by (simp add: ms_session_eq AudioFileImpl_new_def)
qed

text \<open>
  Claim C3, as the code has it. With a single interval and a valid input
  \<open>frames_per_interval\<close> is \<open>floor (ticks * rate / tb_den)\<close> and \<open>error_per_interval\<close> is
  the remainder \<open>(ticks * rate) mod tb_den\<close>, where \<open>ticks\<close> is the tick count line 265
  computes (the \<^verbatim>\<open>double\<close> product \<open>duration * tb_den / tb_num\<close> with its fraction
  dropped). The remainder is 0 exactly when the time-base denominator divides
  \<open>ticks * rate\<close>.
\<close>

theorem start_single_interval:
  assumes "0 \<le> chan" "chan < channels s" "format_context s = Some fc"
    and "0 \<le> audio_stream s" "audio_stream s < int (length (av_streams fc))"
    and "st = av_streams fc ! nat (audio_stream s)"
    and "duration_ticks (duration s) (time_base_den st) (time_base_num st) = Inr ticks"
    and "0 \<le> ticks" "0 \<le> sample_rate s" "0 \<le> time_base_num st" "0 < time_base_den st"
    and "is_int32 (sample_rate s)" "is_int32 (time_base_num st)" "is_int32 (time_base_den st)"
    and "is_int64 (ticks * (sample_rate s * time_base_num st))"
  shows "start ndebug chan 1 s =
           Inr (s\<lparr>channel := Some chan,
                  interval_plan :=
                    \<lparr>frames_per_interval =
                       (ticks * (sample_rate s * time_base_num st)) div time_base_den st,
                     error_per_interval =
                       (ticks * (sample_rate s * time_base_num st)) mod time_base_den st,
                     error_base = time_base_den st\<rparr>\<rparr>)
         \<and> ((ticks * (sample_rate s * time_base_num st)) mod time_base_den st = 0
              \<longleftrightarrow> time_base_den st dvd ticks * (sample_rate s * time_base_num st))"
proof -
  have one: "(1::int) \<le> 1" "is_int32 1" by (simp_all add: is_int32_def INT32_MAX_def)
  note pt = plan_in_range [OF assms(8,9,10,11) one(1) assms(12,13,14) one(2) assms(15)]
  have "start ndebug chan 1 s =
          Inr (s\<lparr>channel := Some chan,
                 interval_plan :=
                   \<lparr>frames_per_interval =
                      (ticks * (sample_rate s * time_base_num st)) div (1 * time_base_den st),
                    error_per_interval =
                      (ticks * (sample_rate s * time_base_num st)) mod (1 * time_base_den st),
                    error_base = 1 * time_base_den st\<rparr>\<rparr>)"
    using assms(1,2,3,4,5) assms(7) [unfolded assms(6)] pt [unfolded assms(6)]
    unfolding assms(6) by (rule start_in_range)
  then show ?thesis by (simp add: mod_eq_0_iff_dvd)
qed

theorem start_single_interval_witness:
  "start True 0 1 stereo_session =
     Inr (stereo_session\<lparr>channel := Some 0,
            interval_plan := \<lparr>frames_per_interval = 44100, error_per_interval = 0,
                              error_base = 14112000\<rparr>\<rparr>)"
proof -
  let ?st = "\<lparr>codec = mp3_context, st_duration = 14112000,
               time_base_num = 1, time_base_den = 14112000\<rparr>"
  have t: "duration_ticks (StreamSeconds 14112000 1 14112000) 14112000 1 = Inr 14112000"
    by code_simp
  have h1: "(0::int) \<le> 0" "0 < channels stereo_session"
    "format_context stereo_session = Some (mp3_file 14112000)"
    "0 \<le> audio_stream stereo_session"
    "audio_stream stereo_session < int (length (av_streams (mp3_file 14112000)))"
    "?st = av_streams (mp3_file 14112000) ! nat (audio_stream stereo_session)"
    by (simp_all add: stereo_session_eq AudioFileImpl_new_def mp3_file_def audio_file_def)
  have h2: "duration_ticks (duration stereo_session) (time_base_den ?st) (time_base_num ?st)
      = Inr 14112000"
    using t by (simp add: stereo_session_eq AudioFileImpl_new_def)
  have h3: "(0::int) \<le> 14112000" "0 \<le> sample_rate stereo_session" "0 \<le> time_base_num ?st"
    "0 < time_base_den ?st"
    "is_int32 (sample_rate stereo_session)" "is_int32 (time_base_num ?st)"
    "is_int32 (time_base_den ?st)"
    "is_int64 (14112000 * (sample_rate stereo_session * time_base_num ?st))"
    by (simp_all add: stereo_session_eq AudioFileImpl_new_def is_int32_def is_int64_def
        INT32_MAX_def INT64_MIN_def INT64_MAX_def)
  from start_single_interval [OF h1 h2 h3, of True]
  show ?thesis by (simp add: stereo_session_eq AudioFileImpl_new_def)
qed

text \<open>
  The stream of 4007 ticks of 1/1000 s at 44100 Hz with a single interval: the plan has
  176664 frames and the remainder 600, where the claim has the total of the duration
  and rate, \<open>floor (4007 * 44100 / 1000) = 176708\<close>, and the remainder 0.
\<close>

theorem start_single_interval_counterexample:
  "start True 0 1 ms_session =
     Inr (ms_session\<lparr>channel := Some 0,
            interval_plan := \<lparr>frames_per_interval = 176664, error_per_interval = 600,
                              error_base = 1000\<rparr>\<rparr>)
   \<and> spec_duration_ticks (duration ms_session) 1000 1 = Some 4007
   \<and> (4007 * (44100 * 1)) div 1000 = (176708 :: int)"
proof -
  have t: "duration_ticks (StreamSeconds 4007 1 1000) 1000 1 = Inr 4006" by code_simp
  have p: "plan 4006 44100 1 1000 1 =
      Inr \<lparr>frames_per_interval = 176664, error_per_interval = 600, error_base = 1000\<rparr>"
    by (simp add: plan_def Let_def wrap64_def av_rescale_rnd_down_def is_int64_def
        INT64_MIN_def INT64_MAX_def c_rem_def)
  have a: "start True 0 1 ms_session =
     Inr (ms_session\<lparr>channel := Some 0,
            interval_plan := \<lparr>frames_per_interval = 176664, error_per_interval = 600,
                              error_base = 1000\<rparr>\<rparr>)"
    by (simp add: start_def Let_def ms_session_eq AudioFileImpl_new_def ms_file_def t p)
  have c: "spec_duration_ticks (StreamSeconds 4007 1 1000) 1000 1 = Some 4007" by code_simp
  show ?thesis using a c by (simp add: ms_session_eq AudioFileImpl_new_def)
qed

text \<open>
  Claim C4, as the code has it. A session whose error is set answers every \<^verbatim>\<open>read\<close> with
  \<open>- 1\<close> and stays exactly as it was, the library's state (container, codec, packet)
  included. With assertions enabled, \<^verbatim>\<open>start\<close> with a channel index outside
  \<open>[0, channels)\<close> aborts at the \<^verbatim>\<open>assert(false)\<close> of line 259. In a build with assertions
  compiled out (\<^verbatim>\<open>NDEBUG\<close>), for a session that holds an open container with its selected
  stream, for which the cast of line 265 has a value and the remainder of line 268 does
  not trap (the error base is not 0, and the division is not \<^verbatim>\<open>INT64_MIN % -1\<close>), \<^verbatim>\<open>start\<close>
  with such an index returns with the error set to \<open>NO_CHANNELS\<close>, and every \<^verbatim>\<open>read\<close>
  after it returns \<open>- 1\<close> in that way.
\<close>

theorem start_out_of_range_then_read:
  "(error s0 \<noteq> OK \<longrightarrow> read dec s0 = Some (Inr (- 1, s0)))
   \<and> (\<not> ndebug \<and> (chan < 0 \<or> channels s \<le> chan) \<longrightarrow>
        start ndebug chan samples s = Inl AssertFailed)
   \<and> (ndebug \<and> (chan < 0 \<or> channels s \<le> chan)
        \<and> format_context s = Some fc
        \<and> 0 \<le> audio_stream s \<and> audio_stream s < int (length (av_streams fc))
        \<and> st = av_streams fc ! nat (audio_stream s)
        \<and> duration_ticks (duration s) (time_base_den st) (time_base_num st) = Inr ticks
        \<and> rate = wrap64 (sample_rate s * time_base_num st)
        \<and> ebase = wrap64 (samples * time_base_den st)
        \<and> ebase \<noteq> 0 \<and> \<not> (ebase = - 1 \<and> wrap64 (ticks * rate) = INT64_MIN)
        \<and> s' = s\<lparr>channel := Some chan, error := NO_CHANNELS,
                   interval_plan :=
                     \<lparr>frames_per_interval = av_rescale_rnd_down ticks rate ebase,
                      error_per_interval = c_rem (wrap64 (ticks * rate)) ebase,
                      error_base = ebase\<rparr>\<rparr> \<longrightarrow>
      start ndebug chan samples s = Inr s' \<and> read dec s' = Some (Inr (- 1, s')))"
proof (intro conjI impI)
  show "read dec s0 = Some (Inr (- 1, s0))" if "error s0 \<noteq> OK"
    using that by (simp add: read_def)
  show "start ndebug chan samples s = Inl AssertFailed"
    if "\<not> ndebug \<and> (chan < 0 \<or> channels s \<le> chan)"
    using that by (auto simp: start_def Let_def)
  assume h: "ndebug \<and> (chan < 0 \<or> channels s \<le> chan)
        \<and> format_context s = Some fc
        \<and> 0 \<le> audio_stream s \<and> audio_stream s < int (length (av_streams fc))
        \<and> st = av_streams fc ! nat (audio_stream s)
        \<and> duration_ticks (duration s) (time_base_den st) (time_base_num st) = Inr ticks
        \<and> rate = wrap64 (sample_rate s * time_base_num st)
        \<and> ebase = wrap64 (samples * time_base_den st)
        \<and> ebase \<noteq> 0 \<and> \<not> (ebase = - 1 \<and> wrap64 (ticks * rate) = INT64_MIN)
        \<and> s' = s\<lparr>channel := Some chan, error := NO_CHANNELS,
                   interval_plan :=
                     \<lparr>frames_per_interval = av_rescale_rnd_down ticks rate ebase,
                      error_per_interval = c_rem (wrap64 (ticks * rate)) ebase,
                      error_base = ebase\<rparr>\<rparr>"
  then have p: "plan ticks (sample_rate s) (time_base_num st) (time_base_den st) samples =
      Inr \<lparr>frames_per_interval = av_rescale_rnd_down ticks rate ebase,
           error_per_interval = c_rem (wrap64 (ticks * rate)) ebase,
           error_base = ebase\<rparr>"
    by (auto simp: plan_def Let_def)
  show "start ndebug chan samples s = Inr s'"
    using h p by (auto simp: start_def Let_def)
  show "read dec s' = Some (Inr (- 1, s'))"
    using h by (simp add: read_def)
qed


theorem start_out_of_range_then_read_witness:
  "read stub_decoder (stereo_session\<lparr>error := NO_CHANNELS\<rparr>)
     = Some (Inr (- 1, stereo_session\<lparr>error := NO_CHANNELS\<rparr>))
   \<and> start False (- 1) 100 stereo_session = Inl AssertFailed
   \<and> start True 2 100 stereo_session =
       Inr (stereo_session\<lparr>channel := Some 2, error := NO_CHANNELS,
              interval_plan := \<lparr>frames_per_interval = 441, error_per_interval = 0,
                                error_base = 1411200000\<rparr>\<rparr>)
   \<and> read stub_decoder
        (stereo_session\<lparr>channel := Some 2, error := NO_CHANNELS,
              interval_plan := \<lparr>frames_per_interval = 441, error_per_interval = 0,
                                error_base = 1411200000\<rparr>\<rparr>)
       = Some (Inr (- 1, stereo_session\<lparr>channel := Some 2, error := NO_CHANNELS,
              interval_plan := \<lparr>frames_per_interval = 441, error_per_interval = 0,
                                error_base = 1411200000\<rparr>\<rparr>))"
proof -
  let ?st = "\<lparr>codec = mp3_context, st_duration = 14112000,
               time_base_num = 1, time_base_den = 14112000\<rparr>"
  let ?s' = "stereo_session\<lparr>channel := Some 2, error := NO_CHANNELS,
              interval_plan := \<lparr>frames_per_interval = 441, error_per_interval = 0,
                                error_base = 1411200000\<rparr>\<rparr>"
  have t: "duration_ticks (StreamSeconds 14112000 1 14112000) 14112000 1 = Inr 14112000"
    by code_simp
  have h1: "error (stereo_session\<lparr>error := NO_CHANNELS\<rparr>) \<noteq> OK" by simp
  have h2: "\<not> False \<and> ((- 1 :: int) < 0 \<or> channels stereo_session \<le> - 1)" by simp
  have a: "format_context stereo_session = Some (mp3_file 14112000)"
    "0 \<le> audio_stream stereo_session"
    "audio_stream stereo_session < int (length (av_streams (mp3_file 14112000)))"
    "?st = av_streams (mp3_file 14112000) ! nat (audio_stream stereo_session)"
    "channels stereo_session \<le> 2"
    by (simp_all add: stereo_session_eq AudioFileImpl_new_def mp3_file_def audio_file_def)
  have b: "duration_ticks (duration stereo_session) (time_base_den ?st) (time_base_num ?st)
      = Inr 14112000"
    using t by (simp add: stereo_session_eq AudioFileImpl_new_def)
  have c: "44100 = wrap64 (sample_rate stereo_session * time_base_num ?st)"
    "1411200000 = wrap64 (100 * time_base_den ?st)"
    "(1411200000 :: int) \<noteq> 0"
    "\<not> ((1411200000 :: int) = - 1 \<and> wrap64 (14112000 * 44100) = INT64_MIN)"
    by (simp_all add: stereo_session_eq AudioFileImpl_new_def wrap64_def)
  have d: "?s' = stereo_session\<lparr>channel := Some 2, error := NO_CHANNELS,
                   interval_plan :=
                     \<lparr>frames_per_interval = av_rescale_rnd_down 14112000 44100 1411200000,
                      error_per_interval = c_rem (wrap64 (14112000 * 44100)) 1411200000,
                      error_base = 1411200000\<rparr>\<rparr>"
    by (simp add: av_rescale_rnd_down_def is_int64_def INT64_MIN_def INT64_MAX_def
        c_rem_def wrap64_def)
  have h3: "True \<and> ((2::int) < 0 \<or> channels stereo_session \<le> 2)
        \<and> format_context stereo_session = Some (mp3_file 14112000)
        \<and> 0 \<le> audio_stream stereo_session
        \<and> audio_stream stereo_session < int (length (av_streams (mp3_file 14112000)))
        \<and> ?st = av_streams (mp3_file 14112000) ! nat (audio_stream stereo_session)
        \<and> duration_ticks (duration stereo_session) (time_base_den ?st) (time_base_num ?st)
            = Inr 14112000
        \<and> 44100 = wrap64 (sample_rate stereo_session * time_base_num ?st)
        \<and> 1411200000 = wrap64 (100 * time_base_den ?st)
        \<and> (1411200000 :: int) \<noteq> 0
        \<and> \<not> ((1411200000 :: int) = - 1 \<and> wrap64 (14112000 * 44100) = INT64_MIN)
        \<and> ?s' = stereo_session\<lparr>channel := Some 2, error := NO_CHANNELS,
                   interval_plan :=
                     \<lparr>frames_per_interval = av_rescale_rnd_down 14112000 44100 1411200000,
                      error_per_interval = c_rem (wrap64 (14112000 * 44100)) 1411200000,
                      error_base = 1411200000\<rparr>\<rparr>"
    using a b c d by blast
  note t1 = start_out_of_range_then_read
      [of "stereo_session\<lparr>error := NO_CHANNELS\<rparr>" stub_decoder False "- 1" stereo_session 100]
  note t2 = start_out_of_range_then_read
      [of "stereo_session\<lparr>error := NO_CHANNELS\<rparr>" stub_decoder True 2 stereo_session 100
          "mp3_file 14112000" ?st 14112000 44100 1411200000 ?s']
  have r1: "read stub_decoder (stereo_session\<lparr>error := NO_CHANNELS\<rparr>)
     = Some (Inr (- 1, stereo_session\<lparr>error := NO_CHANNELS\<rparr>))"
    using t1 h1 by blast
  have r2: "start False (- 1) 100 stereo_session = Inl AssertFailed"
    using t1 h2 by blast
  have r3: "start True 2 100 stereo_session = Inr ?s'
      \<and> read stub_decoder ?s' = Some (Inr (- 1, ?s'))"
    using t2 h3 by blast
  show ?thesis using r1 r2 r3 by blast
qed

text \<open>
  With assertions enabled the \<^verbatim>\<open>assert(false)\<close> of line 259 ends the program before the
  error is stored. A session whose file could not be opened has no container handle for
  line 263 to dereference.
\<close>

theorem start_out_of_range_then_read_counterexample:
  "start False 2 100 stereo_session = Inl AssertFailed
   \<and> error (Audio_open missing_file_lib ''gone.mp3'' [] 0) = CANNOT_OPEN_FILE
   \<and> start True 2 100 (Audio_open missing_file_lib ''gone.mp3'' [] 0) = Inl NullDeref"
  by (simp add: start_def Let_def stereo_session_eq AudioFileImpl_new_def open_eval
      missing_file_lib_def)

section \<open>The sample normalizer\<close>

text \<open>
  Claim C8, as the code has it. The value written for a sample is a function of the
  format tag and the raw sample alone. A signed 16-bit sample gives the \<^verbatim>\<open>float\<close> nearest
  to \<open>raw / 32767\<close>. A signed 32-bit sample is first rounded to \<^verbatim>\<open>float\<close> and then
  divided by \<^verbatim>\<open>static_cast<float>(INT32_MAX)\<close>, which is \<open>2 ^ 31\<close>, not 2147483647. A
  32-bit float sample is passed on as it is, a 64-bit float sample is rounded to the
  nearest \<^verbatim>\<open>float\<close>, and every other tag gives \<open>0.0\<close> without the frame being read.
\<close>

theorem sample_value_normalizes:
  "(fetch_raw planes p off = Inr raw \<longrightarrow>
      ((fmt = AV_SAMPLE_FMT_S16 \<or> fmt = AV_SAMPLE_FMT_S16P) \<and> - 32768 \<le> raw \<and> raw \<le> 32767 \<longrightarrow>
         sample_value fmt planes p off = Inr (IntOverFloat raw 32767)
         \<and> float_of (IntOverFloat raw 32767) = Some (binary32 raw 32767))
    \<and> (fmt = AV_SAMPLE_FMT_S32 \<or> fmt = AV_SAMPLE_FMT_S32P \<longrightarrow>
         sample_value fmt planes p off = Inr (IntOverFloat raw 2147483647)
         \<and> float_of (IntOverFloat raw 2147483647) =
             Some (ieee_div binary32 (binary32 raw 1) (Finite 1 31)))
    \<and> (fmt = AV_SAMPLE_FMT_FLT \<or> fmt = AV_SAMPLE_FMT_FLTP \<longrightarrow>
         sample_value fmt planes p off = Inr (FloatSample raw)
         \<and> float_of (FloatSample raw) = Some (decode_ieee 23 8 raw))
    \<and> (fmt = AV_SAMPLE_FMT_DBL \<or> fmt = AV_SAMPLE_FMT_DBLP \<longrightarrow>
         sample_value fmt planes p off = Inr (DoubleSample raw)
         \<and> float_of (DoubleSample raw) =
             Some (case decode_ieee 52 11 raw of
                     Finite m e \<Rightarrow> binary32 (m * 2 ^ nat e) (2 ^ nat (- e))
                   | x \<Rightarrow> x)))
   \<and> (fmt \<noteq> AV_SAMPLE_FMT_S16 \<and> fmt \<noteq> AV_SAMPLE_FMT_S16P \<and> fmt \<noteq> AV_SAMPLE_FMT_S32 \<and>
       fmt \<noteq> AV_SAMPLE_FMT_S32P \<and> fmt \<noteq> AV_SAMPLE_FMT_FLT \<and> fmt \<noteq> AV_SAMPLE_FMT_FLTP \<and>
       fmt \<noteq> AV_SAMPLE_FMT_DBL \<and> fmt \<noteq> AV_SAMPLE_FMT_DBLP \<longrightarrow>
         sample_value fmt planes p off = Inr FloatZero \<and> float_of FloatZero = Some (Finite 0 0))"
proof (intro conjI impI)
  assume "fmt \<noteq> AV_SAMPLE_FMT_S16 \<and> fmt \<noteq> AV_SAMPLE_FMT_S16P \<and> fmt \<noteq> AV_SAMPLE_FMT_S32 \<and>
       fmt \<noteq> AV_SAMPLE_FMT_S32P \<and> fmt \<noteq> AV_SAMPLE_FMT_FLT \<and> fmt \<noteq> AV_SAMPLE_FMT_FLTP \<and>
       fmt \<noteq> AV_SAMPLE_FMT_DBL \<and> fmt \<noteq> AV_SAMPLE_FMT_DBLP"
  then show "sample_value fmt planes p off = Inr FloatZero"
    by (cases fmt) (simp_all add: sample_value_def)
next
  show "float_of FloatZero = Some (Finite 0 0)" by simp
next
  assume "fetch_raw planes p off = Inr raw"
    and "(fmt = AV_SAMPLE_FMT_S16 \<or> fmt = AV_SAMPLE_FMT_S16P) \<and> - 32768 \<le> raw \<and> raw \<le> 32767"
  then show "sample_value fmt planes p off = Inr (IntOverFloat raw 32767)"
    by (auto simp: sample_value_def convert_def)
next
  assume "(fmt = AV_SAMPLE_FMT_S16 \<or> fmt = AV_SAMPLE_FMT_S16P) \<and> - 32768 \<le> raw \<and> raw \<le> 32767"
  then have "\<bar>raw\<bar> < 2 ^ 24" by (simp add: abs_less_iff)
  then show "float_of (IntOverFloat raw 32767) = Some (binary32 raw 32767)"
    using float_const_16 by (rule float_of_small_int_over) simp
next
  assume "fetch_raw planes p off = Inr raw" and "fmt = AV_SAMPLE_FMT_S32 \<or> fmt = AV_SAMPLE_FMT_S32P"
  then show "sample_value fmt planes p off = Inr (IntOverFloat raw 2147483647)"
    by (auto simp: sample_value_def convert_def)
next
  show "float_of (IntOverFloat raw 2147483647) =
             Some (ieee_div binary32 (binary32 raw 1) (Finite 1 31))"
    by (simp add: float_const_32) (simp add: ieee_of_int_def)
next
  assume "fetch_raw planes p off = Inr raw" and "fmt = AV_SAMPLE_FMT_FLT \<or> fmt = AV_SAMPLE_FMT_FLTP"
  then show "sample_value fmt planes p off = Inr (FloatSample raw)"
    by (auto simp: sample_value_def convert_def)
next
  show "float_of (FloatSample raw) = Some (decode_ieee 23 8 raw)" by simp
next
  assume "fetch_raw planes p off = Inr raw" and "fmt = AV_SAMPLE_FMT_DBL \<or> fmt = AV_SAMPLE_FMT_DBLP"
  then show "sample_value fmt planes p off = Inr (DoubleSample raw)"
    by (auto simp: sample_value_def convert_def)
next
  show "float_of (DoubleSample raw) =
             Some (case decode_ieee 52 11 raw of
                     Finite m e \<Rightarrow> binary32 (m * 2 ^ nat e) (2 ^ nat (- e))
                   | x \<Rightarrow> x)"
    by (simp add: round_value_def split: ieee.splits)
qed

theorem sample_value_normalizes_witness:
  "sample_value AV_SAMPLE_FMT_S16 [[12, 16384]] 0 1 = Inr (IntOverFloat 16384 32767)
   \<and> float_of (IntOverFloat 16384 32767) = Some (Finite 32769 (- 16))
   \<and> sample_value AV_SAMPLE_FMT_S32P [[0], [1073741824]] 1 0 = Inr (IntOverFloat 1073741824 2147483647)
   \<and> float_of (IntOverFloat 1073741824 2147483647) = Some (Finite 1 (- 1))
   \<and> sample_value AV_SAMPLE_FMT_FLT [[3204448256]] 0 0 = Inr (FloatSample 3204448256)
   \<and> float_of (FloatSample 3204448256) = Some (Finite (- 1) (- 1))
   \<and> sample_value AV_SAMPLE_FMT_DBL [[4591870180066957722]] 0 0 = Inr (DoubleSample 4591870180066957722)
   \<and> float_of (DoubleSample 4591870180066957722) = Some (Finite 13421773 (- 27))
   \<and> sample_value AV_SAMPLE_FMT_U8 [[200]] 0 0 = Inr FloatZero
   \<and> float_of FloatZero = Some (Finite 0 0)"
proof -
  have f: "fetch_raw [[12, 16384]] 0 1 = Inr 16384"
      "fetch_raw [[0], [1073741824]] 1 0 = Inr 1073741824"
      "fetch_raw [[3204448256]] 0 0 = Inr 3204448256"
      "fetch_raw [[4591870180066957722]] 0 0 = Inr 4591870180066957722"
    by (simp_all add: fetch_raw_def)
  have v: "binary32 16384 32767 = Finite 32769 (- 16)"
      "ieee_div binary32 (binary32 1073741824 1) (Finite 1 31) = Finite 1 (- 1)"
      "decode_ieee 23 8 3204448256 = Finite (- 1) (- 1)"
      "(case decode_ieee 52 11 4591870180066957722 of
          Finite m e \<Rightarrow> binary32 (m * 2 ^ nat e) (2 ^ nat (- e)) | x \<Rightarrow> x) = Finite 13421773 (- 27)"
    by code_simp+
  note t = sample_value_normalizes
  from t [of "[[12, 16384]]" 0 1 16384 AV_SAMPLE_FMT_S16] f(1)
  have a: "sample_value AV_SAMPLE_FMT_S16 [[12, 16384]] 0 1 = Inr (IntOverFloat 16384 32767)
     \<and> float_of (IntOverFloat 16384 32767) = Some (binary32 16384 32767)"
    by simp
  from t [of "[[0], [1073741824]]" 1 0 1073741824 AV_SAMPLE_FMT_S32P] f(2)
  have b: "sample_value AV_SAMPLE_FMT_S32P [[0], [1073741824]] 1 0 = Inr (IntOverFloat 1073741824 2147483647)
     \<and> float_of (IntOverFloat 1073741824 2147483647) =
         Some (ieee_div binary32 (binary32 1073741824 1) (Finite 1 31))"
    by simp
  from t [of "[[3204448256]]" 0 0 3204448256 AV_SAMPLE_FMT_FLT] f(3)
  have c: "sample_value AV_SAMPLE_FMT_FLT [[3204448256]] 0 0 = Inr (FloatSample 3204448256)
     \<and> float_of (FloatSample 3204448256) = Some (decode_ieee 23 8 3204448256)"
    by simp
  from t [of "[[4591870180066957722]]" 0 0 4591870180066957722 AV_SAMPLE_FMT_DBL] f(4)
  have d: "sample_value AV_SAMPLE_FMT_DBL [[4591870180066957722]] 0 0 = Inr (DoubleSample 4591870180066957722)
     \<and> float_of (DoubleSample 4591870180066957722) =
         Some (case decode_ieee 52 11 4591870180066957722 of
                 Finite m e \<Rightarrow> binary32 (m * 2 ^ nat e) (2 ^ nat (- e)) | x \<Rightarrow> x)"
    by simp
  from t [of "[[200]]" 0 0 0 AV_SAMPLE_FMT_U8]
  have e: "sample_value AV_SAMPLE_FMT_U8 [[200]] 0 0 = Inr FloatZero
     \<and> float_of FloatZero = Some (Finite 0 0)"
    by simp
  show ?thesis
    using a b c d e by (simp only: v)
qed

text \<open>
  The signed 32-bit sample 16777217 (\<open>2 ^ 24 + 1\<close>) is rounded to \<open>2 ^ 24\<close> and divided by
  \<open>2 ^ 31\<close>: the result is \<open>2 ^ - 7\<close>, while the \<^verbatim>\<open>float\<close> nearest to
  \<open>16777217 / 2147483647\<close> is \<open>8388609 * 2 ^ - 30\<close>.
\<close>

theorem sample_value_normalizes_counterexample:
  "sample_value AV_SAMPLE_FMT_S32 [[16777217]] 0 0 = Inr (IntOverFloat 16777217 2147483647)
   \<and> float_of (IntOverFloat 16777217 2147483647) = Some (Finite 1 (- 7))
   \<and> binary32 16777217 2147483647 = Finite 8388609 (- 30)"
proof (intro conjI)
  show "sample_value AV_SAMPLE_FMT_S32 [[16777217]] 0 0 = Inr (IntOverFloat 16777217 2147483647)"
    by (simp add: sample_value_def convert_def fetch_raw_def)
  show "float_of (IntOverFloat 16777217 2147483647) = Some (Finite 1 (- 7))"
    by code_simp
  show "binary32 16777217 2147483647 = Finite 8388609 (- 30)"
    by code_simp
qed

end
